theory Spec2Isabelle
  imports Complex_Main
begin

section \<open>Vectors\<close>

text \<open>
  The C++ sources compute with \<open>float\<close> and \<open>glm::vec3\<close>.  Here a float is a real number
  and a \<open>glm::vec3\<close> is a triple of reals: rounding, overflow, infinities and NaN are not
  part of this model.  The float literal \<open>0.0001f\<close> is the real \<open>1 / 10000\<close>.

  Division by zero is \<open>0\<close> in HOL, so \<open>vnormalize\<close> maps the zero vector to itself, where
  \<open>glm::normalize\<close> yields NaN.  No statement below relies on that value: where a length is
  asserted, the vector normalized is not zero.
\<close>

type_synonym vec3 = "real \<times> real \<times> real"

fun vadd :: "vec3 \<Rightarrow> vec3 \<Rightarrow> vec3" where
  "vadd (a, b, c) (d, e, f) = (a + d, b + e, c + f)"

fun vsub :: "vec3 \<Rightarrow> vec3 \<Rightarrow> vec3" where
  "vsub (a, b, c) (d, e, f) = (a - d, b - e, c - f)"

fun smul :: "vec3 \<Rightarrow> real \<Rightarrow> vec3" where
  "smul (a, b, c) s = (a * s, b * s, c * s)"

fun sdiv :: "vec3 \<Rightarrow> real \<Rightarrow> vec3" where
  "sdiv (a, b, c) s = (a / s, b / s, c / s)"

fun dot :: "vec3 \<Rightarrow> vec3 \<Rightarrow> real" where
  "dot (a, b, c) (d, e, f) = a * d + b * e + c * f"

fun cross :: "vec3 \<Rightarrow> vec3 \<Rightarrow> vec3" where
  "cross (a, b, c) (d, e, f) = (b * f - e * c, c * d - f * a, a * e - d * b)"

text \<open>\<open>glm::length(v)\<close> is \<open>sqrt(dot(v, v))\<close>; \<open>glm::normalize(v)\<close> is
  \<open>v * inversesqrt(dot(v, v))\<close>.\<close>

definition vlength :: "vec3 \<Rightarrow> real" where
  "vlength u = sqrt (dot u u)"

definition vnormalize :: "vec3 \<Rightarrow> vec3" where
  "vnormalize u = smul u (1 / sqrt (dot u u))"

definition zero3 :: vec3 where
  "zero3 = (0, 0, 0)"

section \<open>Loops\<close>

text \<open>\<open>for (int i = i0; i < n; i++) body\<close>, threading the state the body changes.\<close>

function for_loop :: "int \<Rightarrow> int \<Rightarrow> (nat \<Rightarrow> 's \<Rightarrow> 's) \<Rightarrow> 's \<Rightarrow> 's" where
  "for_loop i n body s = (if i < n then for_loop (i + 1) n body (body (nat i) s) else s)"
  by pat_completeness auto
termination
  by (relation "measure (\<lambda>(i, n, body, s). nat (n - i))") auto

declare for_loop.simps [simp del]

text \<open>\<open>for (size_t i = 0; i < indices.size(); i += 3)\<close> with the body reading
  \<open>indices[i]\<close>, \<open>indices[i+1]\<close> and \<open>indices[i+2]\<close>.

  Indexing a \<open>std::vector\<close> or an array out of range is undefined in C++.  In HOL an
  out-of-range \<open>xs ! i\<close> is an unspecified value and an out-of-range update changes nothing;
  the statements below keep every index in range by their hypotheses.\<close>

function tri_loop :: "nat \<Rightarrow> nat list \<Rightarrow> (nat \<Rightarrow> nat \<Rightarrow> nat \<Rightarrow> 's \<Rightarrow> 's) \<Rightarrow> 's \<Rightarrow> 's" where
  "tri_loop i idx body s =
     (if i < length idx
      then tri_loop (i + 3) idx body (body (idx ! i) (idx ! (i + 1)) (idx ! (i + 2)) s)
      else s)"
  by pat_completeness auto
termination
  by (relation "measure (\<lambda>(i, idx, body, s). length idx - i)") auto

declare tri_loop.simps [simp del]

section \<open>The OFF model and the explosion snapshots\<close>

text \<open>
  \<open>OFFReader.h\<close> declares \<open>Vertex\<close>, \<open>Polygon\<close> and \<open>OffModel\<close>; the fields below are the
  ones the sources read and write.  The coordinate fields \<open>x\<close>, \<open>y\<close>, \<open>z\<close> of a vertex are
  \<open>vx\<close>, \<open>vy\<close>, \<open>vz\<close> here, its \<open>normal\<close> is \<open>vnormal\<close>, and the index array \<open>v\<close> of a polygon
  is \<open>pv\<close>.
\<close>

record Vertex =
  vx :: real
  vy :: real
  vz :: real
  vnormal :: vec3
  numIcidentTri :: int

record Polygon =
  noSides :: int
  pv :: "nat list"

record OffModel =
  vertices :: "Vertex list"
  polygons :: "Polygon list"
  numberOfVertices :: int
  numberOfPolygons :: int
  minX :: real
  maxX :: real
  minY :: real
  maxY :: real
  minZ :: real
  maxZ :: real
  extent :: real

record ExplodedVertexData =
  originalX :: real
  originalY :: real
  originalZ :: real

text \<open>
  An \<open>OffModel*\<close> is an address; \<open>0\<close> is the null pointer.  The world holds the live models
  and the global map \<open>explodedModels\<close>, keyed by address.
\<close>

type_synonym ptr = nat

record World =
  models :: "ptr \<rightharpoonup> OffModel"
  explodedModels :: "ptr \<rightharpoonup> ExplodedVertexData list"

text \<open>
  Modelled from the spec: \<open>computeNormals\<close> is defined in \<open>OFFReader.h\<close>, which is not among
  the sources.  Section 4.5 of the specification says that it recomputes the normals after
  the positions changed.  It is a parameter \<open>nrm\<close>, the new normal of each vertex of a
  model, and it writes the normal fields only.
\<close>

definition computeNormals :: "(OffModel \<Rightarrow> nat \<Rightarrow> vec3) \<Rightarrow> OffModel \<Rightarrow> OffModel" where
  "computeNormals nrm m =
     m\<lparr>vertices := map (\<lambda>i. (vertices m ! i)\<lparr>vnormal := nrm m i\<rparr>) [0..<length (vertices m)]\<rparr>"

definition store_original :: "OffModel \<Rightarrow> nat \<Rightarrow> ExplodedVertexData list \<Rightarrow> ExplodedVertexData list" where
  "store_original m i originalVertices =
     originalVertices[i := \<lparr>originalX = vx (vertices m ! i),
                            originalY = vy (vertices m ! i),
                            originalZ = vz (vertices m ! i)\<rparr>]"

text \<open>Reading through a pointer to no live model is undefined in C++; the functions
  below leave the world as it is there.\<close>

definition initializeExplosion :: "ptr \<Rightarrow> World \<Rightarrow> World" where
  "initializeExplosion model w =
     (if model = 0 then w
      else if explodedModels w model \<noteq> None then w
      else case models w model of
        None \<Rightarrow> w
      | Some m \<Rightarrow>
          let originalVertices =
                replicate (nat (numberOfVertices m))
                  \<lparr>originalX = 0, originalY = 0, originalZ = 0\<rparr>;
              originalVertices =
                for_loop 0 (numberOfVertices m) (store_original m) originalVertices
          in w\<lparr>explodedModels := (explodedModels w)(model \<mapsto> originalVertices)\<rparr>)"

definition add_original :: "ExplodedVertexData list \<Rightarrow> nat \<Rightarrow> vec3 \<Rightarrow> vec3" where
  "add_original originalVertices i center =
     (case center of (cx, cy, cz) \<Rightarrow>
        (cx + originalX (originalVertices ! i),
         cy + originalY (originalVertices ! i),
         cz + originalZ (originalVertices ! i)))"

definition explode_vertex ::
  "ExplodedVertexData list \<Rightarrow> vec3 \<Rightarrow> real \<Rightarrow> nat \<Rightarrow> OffModel \<Rightarrow> OffModel" where
  "explode_vertex originalVertices center factor i m =
     (let origX = originalX (originalVertices ! i);
          origY = originalY (originalVertices ! i);
          origZ = originalZ (originalVertices ! i);
          direction = vsub (origX, origY, origZ) center;
          distance = vlength direction;
          direction = (if distance > 1 / 10000 then vnormalize direction else (0, 1, 0))
      in case direction of (dx, dy, dz) \<Rightarrow>
           m\<lparr>vertices := (vertices m)[i := (vertices m ! i)
                \<lparr>vx := origX + dx * factor, vy := origY + dy * factor, vz := origZ + dz * factor\<rparr>]\<rparr>)"

definition updateExplosion :: "(OffModel \<Rightarrow> nat \<Rightarrow> vec3) \<Rightarrow> ptr \<Rightarrow> real \<Rightarrow> World \<Rightarrow> World" where
  "updateExplosion nrm model factor w =
     (if model = 0 then w
      else case explodedModels w model of
        None \<Rightarrow> initializeExplosion model w
      | Some originalVertices \<Rightarrow>
          (case models w model of
             None \<Rightarrow> w
           | Some m \<Rightarrow>
               let center = for_loop 0 (numberOfVertices m) (add_original originalVertices) zero3;
                   center = sdiv center (real_of_int (numberOfVertices m));
                   m = for_loop 0 (numberOfVertices m)
                         (explode_vertex originalVertices center factor) m
               in w\<lparr>models := (models w)(model \<mapsto> computeNormals nrm m)\<rparr>))"

definition restore_vertex :: "ExplodedVertexData list \<Rightarrow> nat \<Rightarrow> OffModel \<Rightarrow> OffModel" where
  "restore_vertex originalVertices i m =
     m\<lparr>vertices := (vertices m)[i := (vertices m ! i)
          \<lparr>vx := originalX (originalVertices ! i),
           vy := originalY (originalVertices ! i),
           vz := originalZ (originalVertices ! i)\<rparr>]\<rparr>"

definition resetExplosion :: "(OffModel \<Rightarrow> nat \<Rightarrow> vec3) \<Rightarrow> ptr \<Rightarrow> World \<Rightarrow> World" where
  "resetExplosion nrm model w =
     (if model = 0 then w
      else case explodedModels w model of
        None \<Rightarrow> w
      | Some originalVertices \<Rightarrow>
          (case models w model of
             None \<Rightarrow> w
           | Some m \<Rightarrow>
               let m = for_loop 0 (numberOfVertices m) (restore_vertex originalVertices) m
               in w\<lparr>models := (models w)(model \<mapsto> computeNormals nrm m)\<rparr>))"

definition cleanupExplosionData :: "ptr \<Rightarrow> World \<Rightarrow> World" where
  "cleanupExplosionData model w =
     (if explodedModels w model \<noteq> None
      then w\<lparr>explodedModels := (explodedModels w)(model := None)\<rparr> else w)"

definition cleanupAllExplosionData :: "World \<Rightarrow> World" where
  "cleanupAllExplosionData w = w\<lparr>explodedModels := Map.empty\<rparr>"

section \<open>The mesh\<close>

text \<open>
  \<open>mesh.h\<close> (in the sources it follows the Makefile, in one file).  The vector \<open>vertices\<close> of a \<open>Mesh\<close> is \<open>mvertices\<close> here (the OFF model has a
  field of the same name).  The handles \<open>VAO\<close>, \<open>VBO\<close> and \<open>EBO\<close> stand for the buffers of
  the graphics library; \<open>GL\<close> holds what was last uploaded into them.
\<close>

record MeshVertex =
  position :: vec3
  normal :: vec3
  faceCenter :: vec3

record Mesh =
  mvertices :: "MeshVertex list"
  indices :: "nat list"
  centerOfMass :: vec3
  boundingSphereRadius :: real
  offModel :: ptr

record GL =
  vertex_buffer :: "MeshVertex list"
  element_buffer :: "nat list"

datatype error = RuntimeError string

text \<open>The first pass of \<open>calculateNormals\<close>: every normal is set to zero.\<close>

definition zero_normals :: "MeshVertex list \<Rightarrow> MeshVertex list" where
  "zero_normals vs = map (\<lambda>vertex. vertex\<lparr>normal := zero3\<rparr>) vs"

text \<open>The body of its loop over the triangles.  It reads the three positions, adds the
  normalized cross product of the two edges to the three normals, one after the other,
  and counts the triangle at the three vertices of the OFF model.\<close>

definition add_to_normal :: "nat \<Rightarrow> vec3 \<Rightarrow> MeshVertex list \<Rightarrow> MeshVertex list" where
  "add_to_normal i faceNormal vs = vs[i := (vs ! i)\<lparr>normal := vadd (normal (vs ! i)) faceNormal\<rparr>]"

definition count_incident :: "nat \<Rightarrow> OffModel \<Rightarrow> OffModel" where
  "count_incident i om =
     om\<lparr>vertices := (vertices om)[i := (vertices om ! i)
           \<lparr>numIcidentTri := numIcidentTri (vertices om ! i) + 1\<rparr>]\<rparr>"

definition add_face_normal ::
  "nat \<Rightarrow> nat \<Rightarrow> nat \<Rightarrow> MeshVertex list \<times> OffModel \<Rightarrow> MeshVertex list \<times> OffModel" where
  "add_face_normal idx1 idx2 idx3 s =
     (case s of (vs, om) \<Rightarrow>
        let v1 = position (vs ! idx1);
            v2 = position (vs ! idx2);
            v3 = position (vs ! idx3);
            edge1 = vsub v2 v1;
            edge2 = vsub v3 v1;
            faceNormal = vnormalize (cross edge1 edge2);
            vs = add_to_normal idx1 faceNormal vs;
            vs = add_to_normal idx2 faceNormal vs;
            vs = add_to_normal idx3 faceNormal vs;
            om = count_incident idx1 om;
            om = count_incident idx2 om;
            om = count_incident idx3 om
        in (vs, om))"

text \<open>The body of its last loop: a normal longer than \<open>0.0001\<close> is normalized and copied
  into the OFF model; any other normal is left as it is.\<close>

definition normalize_normal :: "nat \<Rightarrow> MeshVertex list \<times> OffModel \<Rightarrow> MeshVertex list \<times> OffModel" where
  "normalize_normal i s =
     (case s of (vs, om) \<Rightarrow>
        if vlength (normal (vs ! i)) > 1 / 10000
        then let vs = vs[i := (vs ! i)\<lparr>normal := vnormalize (normal (vs ! i))\<rparr>];
                 om = om\<lparr>vertices := (vertices om)[i := (vertices om ! i)
                        \<lparr>vnormal := normal (vs ! i)\<rparr>]\<rparr>
             in (vs, om)
        else (vs, om))"

text \<open>The normals after the first two passes, before the last one.\<close>

definition accumulate_normals ::
  "nat list \<Rightarrow> MeshVertex list \<times> OffModel \<Rightarrow> MeshVertex list \<times> OffModel" where
  "accumulate_normals idx s =
     (case s of (vs, om) \<Rightarrow> tri_loop 0 idx add_face_normal (zero_normals vs, om))"

definition calculateNormals :: "Mesh \<Rightarrow> World \<Rightarrow> Mesh \<times> World" where
  "calculateNormals mesh w =
     (case models w (offModel mesh) of
        None \<Rightarrow> (mesh, w)
      | Some om \<Rightarrow>
          (case accumulate_normals (indices mesh) (mvertices mesh, om) of (vs, om) \<Rightarrow>
           case for_loop 0 (int (length vs)) normalize_normal (vs, om) of (vs, om) \<Rightarrow>
             (mesh\<lparr>mvertices := vs\<rparr>, w\<lparr>models := (models w)(offModel mesh \<mapsto> om)\<rparr>)))"

definition set_face_center :: "nat \<Rightarrow> nat \<Rightarrow> nat \<Rightarrow> MeshVertex list \<Rightarrow> MeshVertex list" where
  "set_face_center idx1 idx2 idx3 vs =
     (let center = sdiv (vadd (vadd (position (vs ! idx1)) (position (vs ! idx2)))
                           (position (vs ! idx3))) 3;
          vs = vs[idx1 := (vs ! idx1)\<lparr>faceCenter := center\<rparr>];
          vs = vs[idx2 := (vs ! idx2)\<lparr>faceCenter := center\<rparr>];
          vs = vs[idx3 := (vs ! idx3)\<lparr>faceCenter := center\<rparr>]
      in vs)"

definition calculateFaceCenters :: "Mesh \<Rightarrow> Mesh" where
  "calculateFaceCenters mesh =
     mesh\<lparr>mvertices := tri_loop 0 (indices mesh) set_face_center (mvertices mesh)\<rparr>"

definition calculateCenterAndRadius :: "Mesh \<Rightarrow> World \<Rightarrow> Mesh" where
  "calculateCenterAndRadius mesh w =
     (case models w (offModel mesh) of
        None \<Rightarrow> mesh
      | Some om \<Rightarrow>
          mesh\<lparr>centerOfMass := ((minX om + maxX om) / 2, (minY om + maxY om) / 2,
                                (minZ om + maxZ om) / 2),
               boundingSphereRadius := extent om / 2\<rparr>)"

text \<open>The constructor, from the pointer \<open>readOffFile\<close> returned (the reader itself is in
  \<open>OFFReader.h\<close>): null, or the address of the model it built; an address with no model
  behind it is treated like null.  A \<open>MeshVertex\<close> is declared without an initial value,
  so its \<open>faceCenter\<close> starts as whatever the memory holds: \<open>junk i\<close> for vertex \<open>i\<close>.  The
  members \<open>centerOfMass\<close> and \<open>boundingSphereRadius\<close> are written by
  \<open>calculateCenterAndRadius\<close> before anything reads them; until then they are zero here.
  The indices of a polygon are \<open>int\<close> in the OFF model and \<open>unsigned int\<close> in the index
  buffer; both are natural numbers here.\<close>

definition push_vertex :: "(nat \<Rightarrow> vec3) \<Rightarrow> OffModel \<Rightarrow> nat \<Rightarrow> MeshVertex list \<Rightarrow> MeshVertex list" where
  "push_vertex junk om i vs =
     vs @ [\<lparr>position = (vx (vertices om ! i), vy (vertices om ! i), vz (vertices om ! i)),
            normal = zero3, faceCenter = junk i\<rparr>]"

definition push_triangle :: "Polygon \<Rightarrow> nat \<Rightarrow> nat list \<Rightarrow> nat list" where
  "push_triangle polygon j idx = idx @ [pv polygon ! 0, pv polygon ! j, pv polygon ! (j + 1)]"

definition triangulate :: "Polygon \<Rightarrow> nat list \<Rightarrow> nat list" where
  "triangulate polygon idx = for_loop 1 (noSides polygon - 1) (push_triangle polygon) idx"

definition Mesh_ctor :: "(nat \<Rightarrow> vec3) \<Rightarrow> ptr \<Rightarrow> World \<Rightarrow> error + Mesh \<times> World" where
  "Mesh_ctor junk p w =
     (if p = 0 then Inl (RuntimeError ''Failed to load OFF file: '')
      else case models w p of
        None \<Rightarrow> Inl (RuntimeError ''Failed to load OFF file: '')
      | Some om \<Rightarrow>
          let vs = for_loop 0 (numberOfVertices om) (push_vertex junk om) [];
              idx = for_loop 0 (numberOfPolygons om)
                      (\<lambda>i. triangulate (polygons om ! i)) [];
              mesh = \<lparr>mvertices = vs, indices = idx, centerOfMass = zero3,
                      boundingSphereRadius = 0, offModel = p\<rparr>
          in case calculateNormals mesh w of (mesh, w) \<Rightarrow>
               let mesh = calculateFaceCenters mesh;
                   mesh = calculateCenterAndRadius mesh w
               in Inr (mesh, w))"

definition setupMesh :: "Mesh \<Rightarrow> GL" where
  "setupMesh mesh = \<lparr>vertex_buffer = mvertices mesh, element_buffer = indices mesh\<rparr>"

definition getOffModel :: "Mesh \<Rightarrow> ptr" where
  "getOffModel mesh = offModel mesh"

section \<open>The vertex shader\<close>

text \<open>
  \<open>shaders/vertex_shader.glsl\<close>.  A \<open>mat4\<close> is its four columns, as in GLSL.  The normal
  matrix \<open>mat3(transpose(inverse(model)))\<close> is the parameter \<open>normalMatrix\<close>.
\<close>

type_synonym vec4 = "real \<times> real \<times> real \<times> real"

type_synonym mat4 = "vec4 \<times> vec4 \<times> vec4 \<times> vec4"

fun vec4_of :: "vec3 \<Rightarrow> real \<Rightarrow> vec4" where
  "vec4_of (a, b, c) d = (a, b, c, d)"

fun vec3_of :: "vec4 \<Rightarrow> vec3" where
  "vec3_of (a, b, c, d) = (a, b, c)"

fun vadd4 :: "vec4 \<Rightarrow> vec4 \<Rightarrow> vec4" where
  "vadd4 (a, b, c, d) (e, f, g, h) = (a + e, b + f, c + g, d + h)"

fun smul4 :: "vec4 \<Rightarrow> real \<Rightarrow> vec4" where
  "smul4 (a, b, c, d) s = (a * s, b * s, c * s, d * s)"

fun mat_vec :: "mat4 \<Rightarrow> vec4 \<Rightarrow> vec4" where
  "mat_vec (c0, c1, c2, c3) (a, b, c, d) =
     vadd4 (vadd4 (vadd4 (smul4 c0 a) (smul4 c1 b)) (smul4 c2 c)) (smul4 c3 d)"

record VSOut =
  FragPos :: vec3
  Normal :: vec3
  Depth :: real
  gl_Position :: vec4

definition explodedPos :: "vec3 \<Rightarrow> vec3 \<Rightarrow> real \<Rightarrow> vec3" where
  "explodedPos aPos aFaceCenter factor =
     (let direction = vsub aPos aFaceCenter in vadd aPos (smul direction factor))"

definition vertex_shader ::
  "(mat4 \<Rightarrow> vec3 \<Rightarrow> vec3) \<Rightarrow> mat4 \<Rightarrow> mat4 \<Rightarrow> mat4 \<Rightarrow> real \<Rightarrow> MeshVertex \<Rightarrow> VSOut" where
  "vertex_shader normalMatrix model view projection factor u =
     (let aPos = position u; aNormal = normal u; aFaceCenter = faceCenter u;
          fragPos = vec3_of (mat_vec model (vec4_of (explodedPos aPos aFaceCenter factor) 1));
          viewPosition = mat_vec view (vec4_of fragPos 1)
      in \<lparr>FragPos = fragPos,
          Normal = normalMatrix model aNormal,
          Depth = - (case viewPosition of (a, b, c, d) \<Rightarrow> c),
          gl_Position = mat_vec projection (mat_vec view (vec4_of fragPos 1))\<rparr>)"

section \<open>The main program\<close>

text \<open>
  \<open>main.cpp\<close>: the globals the explosion uses, the mesh, the uploaded buffers and the
  world.  The global pointer \<open>offModel\<close> of \<open>main.cpp\<close> is \<open>g_offModel\<close>.
\<close>

record App =
  app_mesh :: Mesh
  app_gl :: GL
  world :: World
  explodeFactor :: real
  explodeAnimation :: bool
  explodeDirection :: real
  g_offModel :: ptr

text \<open>Lines 113 to 125: the mesh is built and uploaded, and the explosion initialized.\<close>

definition startup :: "(nat \<Rightarrow> vec3) \<Rightarrow> ptr \<Rightarrow> World \<Rightarrow> error + App" where
  "startup junk p w =
     (case Mesh_ctor junk p w of
        Inl e \<Rightarrow> Inl e
      | Inr (mesh, w) \<Rightarrow>
          let g = setupMesh mesh;
              off = getOffModel mesh;
              w = (if off \<noteq> 0 then initializeExplosion off w else w)
          in Inr \<lparr>app_mesh = mesh, app_gl = g, world = w, explodeFactor = 0,
                  explodeAnimation = False, explodeDirection = 1, g_offModel = off\<rparr>)"

text \<open>Lines 179 to 196, once per frame.\<close>

definition animate :: "(OffModel \<Rightarrow> nat \<Rightarrow> vec3) \<Rightarrow> real \<Rightarrow> App \<Rightarrow> App" where
  "animate nrm deltaTime app =
     (if explodeAnimation app then
        let app = app\<lparr>explodeFactor := explodeFactor app + explodeDirection app * deltaTime\<rparr>;
            app = (if explodeFactor app > 1
                   then app\<lparr>explodeFactor := 1, explodeDirection := - 1\<rparr>
                   else if explodeFactor app < 0
                   then app\<lparr>explodeFactor := 0, explodeDirection := 1, explodeAnimation := False\<rparr>
                   else app)
        in if g_offModel app \<noteq> 0
           then app\<lparr>world := updateExplosion nrm (g_offModel app) (explodeFactor app) (world app)\<rparr>
           else app
      else app)"

text \<open>Lines 214 to 217 (the button) and 381 to 384 (the key B).\<close>

definition explode_view :: "App \<Rightarrow> App" where
  "explode_view app =
     app\<lparr>explodeAnimation := True,
         explodeDirection := (if explodeFactor app > 1 / 2 then - 1 else 1)\<rparr>"

text \<open>Lines 219 to 224: the slider was moved to \<open>x\<close>.\<close>

definition slider :: "(OffModel \<Rightarrow> nat \<Rightarrow> vec3) \<Rightarrow> real \<Rightarrow> App \<Rightarrow> App" where
  "slider nrm x app =
     (let app = app\<lparr>explodeFactor := x\<rparr>
      in if g_offModel app \<noteq> 0
         then app\<lparr>world := updateExplosion nrm (g_offModel app) (explodeFactor app) (world app)\<rparr>
         else app)"

text \<open>Lines 414 to 420: the key N.\<close>

definition key_N :: "(OffModel \<Rightarrow> nat \<Rightarrow> vec3) \<Rightarrow> App \<Rightarrow> App" where
  "key_N nrm app =
     (if g_offModel app \<noteq> 0
      then app\<lparr>world := resetExplosion nrm (g_offModel app) (world app), explodeFactor := 0\<rparr>
      else app)"

datatype event = Frame real | ExplodeView | Slider real | KeyB | KeyN

fun step :: "(OffModel \<Rightarrow> nat \<Rightarrow> vec3) \<Rightarrow> event \<Rightarrow> App \<Rightarrow> App" where
  "step nrm (Frame deltaTime) app = animate nrm deltaTime app"
| "step nrm ExplodeView app = explode_view app"
| "step nrm (Slider x) app = slider nrm x app"
| "step nrm KeyB app = explode_view app"
| "step nrm KeyN app = key_N nrm app"

definition run :: "(OffModel \<Rightarrow> nat \<Rightarrow> vec3) \<Rightarrow> event list \<Rightarrow> App \<Rightarrow> App" where
  "run nrm evs app = fold (step nrm) evs app"

text \<open>Lines 313 to 327: \<open>Draw\<close> runs the vertex shader, with the uniform \<open>explodeFactor\<close>
  set from the global of that name, on the uploaded vertex of every uploaded index.\<close>

definition Draw ::
  "(mat4 \<Rightarrow> vec3 \<Rightarrow> vec3) \<Rightarrow> mat4 \<Rightarrow> mat4 \<Rightarrow> mat4 \<Rightarrow> App \<Rightarrow> VSOut list" where
  "Draw normalMatrix model view projection app =
     map (\<lambda>k. vertex_shader normalMatrix model view projection (explodeFactor app)
                (vertex_buffer (app_gl app) ! k))
         (element_buffer (app_gl app))"

section \<open>Notions used by the statements\<close>

text \<open>
  The position of a vertex of the OFF model, the position a snapshot entry holds, and the
  snapshot entry \<open>initializeExplosion\<close> stores for a vertex.
\<close>

definition coords :: "Vertex \<Rightarrow> vec3" where
  "coords u = (vx u, vy u, vz u)"

definition baseline :: "ExplodedVertexData \<Rightarrow> vec3" where
  "baseline e = (originalX e, originalY e, originalZ e)"

definition capture :: "Vertex \<Rightarrow> ExplodedVertexData" where
  "capture u = \<lparr>originalX = vx u, originalY = vy u, originalZ = vz u\<rparr>"

definition positions_of :: "ptr \<Rightarrow> World \<Rightarrow> vec3 list" where
  "positions_of model w =
     (case models w model of None \<Rightarrow> [] | Some m \<Rightarrow> map coords (vertices m))"

text \<open>The unweighted mean of the positions a snapshot holds.\<close>

definition snapshot_mean :: "ExplodedVertexData list \<Rightarrow> vec3" where
  "snapshot_mean ov =
     (sum_list (map originalX ov) / real (length ov),
      sum_list (map originalY ov) / real (length ov),
      sum_list (map originalZ ov) / real (length ov))"

text \<open>
  A model is initialized when it is live, has a snapshot, and the snapshot and the vertex
  array both have \<open>numberOfVertices\<close> entries, as \<open>initializeExplosion\<close> leaves them.
\<close>

definition initialized :: "ptr \<Rightarrow> World \<Rightarrow> OffModel \<Rightarrow> ExplodedVertexData list \<Rightarrow> bool" where
  "initialized model w m ov \<longleftrightarrow>
     model \<noteq> 0 \<and> models w model = Some m \<and> explodedModels w model = Some ov \<and>
     numberOfVertices m = int (length (vertices m)) \<and> length ov = length (vertices m)"

text \<open>The index buffer read three indices at a time, as the loops over the triangles do.\<close>

fun triples :: "nat list \<Rightarrow> (nat \<times> nat \<times> nat) list" where
  "triples (a # b # c # rest) = (a, b, c) # triples rest"
| "triples rest = []"

text \<open>
  Modelled from the spec: \<open>readOffFile\<close> is in \<open>OFFReader.h\<close>, which is not among the sources.
  By sections 4.1 and 7 of the specification a vertex or polygon count that does not match
  the data and an out-of-range index are load failures, so a model the reader returns has
  as many vertices and polygons as it counts, every polygon has as many indices as it has
  sides, and every index is below the vertex count.
\<close>

definition off_model_ok :: "OffModel \<Rightarrow> bool" where
  "off_model_ok om \<longleftrightarrow>
     numberOfVertices om = int (length (vertices om)) \<and>
     numberOfPolygons om = int (length (polygons om)) \<and>
     (\<forall>polygon \<in> set (polygons om).
        noSides polygon = int (length (pv polygon)) \<and>
        (\<forall>k \<in> set (pv polygon). k < length (vertices om)))"

definition index_buffer_ok :: "Mesh \<Rightarrow> bool" where
  "index_buffer_ok mesh \<longleftrightarrow>
     3 dvd length (indices mesh) \<and> (\<forall>k \<in> set (indices mesh). k < length (mvertices mesh))"

text \<open>The centroid of a triangle, and the last triangle of a list that refers to a vertex.\<close>

definition centroid :: "MeshVertex list \<Rightarrow> nat \<times> nat \<times> nat \<Rightarrow> vec3" where
  "centroid vs t =
     (case t of (a, b, c) \<Rightarrow>
        sdiv (vadd (vadd (position (vs ! a)) (position (vs ! b))) (position (vs ! c))) 3)"

definition last_face :: "nat \<Rightarrow> (nat \<times> nat \<times> nat) list \<Rightarrow> (nat \<times> nat \<times> nat) option" where
  "last_face k ts = find (\<lambda>(a, b, c). k = a \<or> k = b \<or> k = c) (rev ts)"

section \<open>Closed forms of the loop bodies\<close>

text \<open>
  What one round of a loop does to the data a statement is about, written without the
  rest of the state; the lemmas below prove each equal to the loop body above.
\<close>

definition displaced :: "vec3 \<Rightarrow> vec3 \<Rightarrow> real \<Rightarrow> vec3" where
  "displaced b c factor =
     vadd b (smul (if vlength (vsub b c) > 1 / 10000 then vnormalize (vsub b c) else (0, 1, 0)) factor)"

definition set_coords :: "vec3 \<Rightarrow> Vertex \<Rightarrow> Vertex" where
  "set_coords q u = (case q of (a, b, c) \<Rightarrow> u\<lparr>vx := a, vy := b, vz := c\<rparr>)"

definition face_normal :: "MeshVertex list \<Rightarrow> nat \<Rightarrow> nat \<Rightarrow> nat \<Rightarrow> vec3" where
  "face_normal vs a b c =
     vnormalize (cross (vsub (position (vs ! b)) (position (vs ! a)))
                       (vsub (position (vs ! c)) (position (vs ! a))))"

definition add_face_normal_vs :: "nat \<Rightarrow> nat \<Rightarrow> nat \<Rightarrow> MeshVertex list \<Rightarrow> MeshVertex list" where
  "add_face_normal_vs a b c vs =
     add_to_normal c (face_normal vs a b c)
       (add_to_normal b (face_normal vs a b c) (add_to_normal a (face_normal vs a b c) vs))"

definition normalize_vertex :: "MeshVertex \<Rightarrow> MeshVertex" where
  "normalize_vertex u =
     (if vlength (normal u) > 1 / 10000 then u\<lparr>normal := vnormalize (normal u)\<rparr> else u)"

definition same_coords :: "OffModel \<Rightarrow> OffModel \<Rightarrow> bool" where
  "same_coords om om' \<longleftrightarrow>
     map coords (vertices om') = map coords (vertices om) \<and>
     numberOfVertices om' = numberOfVertices om"

definition ctor_indices :: "OffModel \<Rightarrow> nat list" where
  "ctor_indices om =
     concat (map (\<lambda>i. triangulate (polygons om ! i) []) [0..<nat (numberOfPolygons om)])"

definition ctor_vertices :: "(nat \<Rightarrow> vec3) \<Rightarrow> OffModel \<Rightarrow> MeshVertex list" where
  "ctor_vertices junk om =
     map (\<lambda>i. \<lparr>position = coords (vertices om ! i), normal = zero3, faceCenter = junk i\<rparr>)
       [0..<nat (numberOfVertices om)]"

definition ctor_mesh :: "(nat \<Rightarrow> vec3) \<Rightarrow> ptr \<Rightarrow> OffModel \<Rightarrow> Mesh" where
  "ctor_mesh junk p om =
     \<lparr>mvertices = ctor_vertices junk om, indices = ctor_indices om, centerOfMass = zero3,
      boundingSphereRadius = 0, offModel = p\<rparr>"

section \<open>Example inputs\<close>

text \<open>
  A \<open>computeNormals\<close> that sets every normal to zero, and memory full of zeros for the
  uninitialized face centres.
\<close>

definition nrm0 :: "OffModel \<Rightarrow> nat \<Rightarrow> vec3" where
  "nrm0 m i = zero3"

definition junk0 :: "nat \<Rightarrow> vec3" where
  "junk0 i = zero3"

definition mk_vertex :: "vec3 \<Rightarrow> Vertex" where
  "mk_vertex q = (case q of (a, b, c) \<Rightarrow>
     \<lparr>vx = a, vy = b, vz = c, vnormal = zero3, numIcidentTri = 0\<rparr>)"

definition mk_mesh_vertex :: "vec3 \<Rightarrow> MeshVertex" where
  "mk_mesh_vertex q = \<lparr>position = q, normal = zero3, faceCenter = zero3\<rparr>"

text \<open>
  A rectangle of 6 by 8 with a fifth vertex at its centre, which no polygon refers to.  The
  mean of the five positions is the centre \<open>(3, 4, 0)\<close>, and the corners are 5 away from it.
\<close>

definition ex_model :: OffModel where
  "ex_model =
     \<lparr>vertices = map mk_vertex [(0, 0, 0), (6, 0, 0), (6, 8, 0), (0, 8, 0), (3, 4, 0)],
      polygons = [\<lparr>noSides = 4, pv = [0, 1, 2, 3]\<rparr>],
      numberOfVertices = 5, numberOfPolygons = 1,
      minX = 0, maxX = 6, minY = 0, maxY = 8, minZ = 0, maxZ = 0, extent = 8\<rparr>"

definition ex_snapshot :: "ExplodedVertexData list" where
  "ex_snapshot = map capture (vertices ex_model)"

definition ex_world :: World where
  "ex_world = \<lparr>models = [1 \<mapsto> ex_model], explodedModels = Map.empty\<rparr>"

definition ex_app :: App where
  "ex_app = projr (startup junk0 1 ex_world)"

text \<open>Two vertices \<open>0.0001\<close> apart: each is \<open>0.00005\<close> away from their mean.\<close>

definition near_model :: OffModel where
  "near_model =
     \<lparr>vertices = map mk_vertex [(1 / 20000, 0, 0), (- 1 / 20000, 0, 0)],
      polygons = [],
      numberOfVertices = 2, numberOfPolygons = 0,
      minX = - 1 / 20000, maxX = 1 / 20000, minY = 0, maxY = 0, minZ = 0, maxZ = 0,
      extent = 1 / 10000\<rparr>"

definition near_world :: World where
  "near_world = initializeExplosion 1 \<lparr>models = [1 \<mapsto> near_model], explodedModels = Map.empty\<rparr>"

text \<open>A triangle with the edges \<open>(2, 0, 0)\<close> and \<open>(0, 2, 0)\<close>, of area 2.\<close>

definition big_triangle :: "MeshVertex list" where
  "big_triangle = map mk_mesh_vertex [(0, 0, 0), (2, 0, 0), (0, 2, 0)]"

text \<open>
  A quadrilateral whose fan has two triangles at vertex 0 with nearly opposite unit normals,
  \<open>(0, 0, 1)\<close> and \<open>(60000, 0, -899999999) / 900000001\<close>.
\<close>

definition sliver_model :: OffModel where
  "sliver_model =
     \<lparr>vertices = map mk_vertex [(0, 0, 0), (1, 0, 0), (0, 1, 0), (899999999, 0, 60000)],
      polygons = [\<lparr>noSides = 4, pv = [0, 1, 2, 3]\<rparr>],
      numberOfVertices = 4, numberOfPolygons = 1,
      minX = 0, maxX = 899999999, minY = 0, maxY = 1, minZ = 0, maxZ = 60000,
      extent = 899999999\<rparr>"

definition sliver_world :: World where
  "sliver_world = \<lparr>models = [1 \<mapsto> sliver_model], explodedModels = Map.empty\<rparr>"

definition sliver_loaded :: "Mesh \<times> World" where
  "sliver_loaded = projr (Mesh_ctor junk0 1 sliver_world)"

text \<open>A model matrix that doubles and then shifts by 1 along \<open>x\<close>.\<close>

definition ex_matrix :: mat4 where
  "ex_matrix = ((2, 0, 0, 0), (0, 2, 0, 0), (0, 0, 2, 0), (1, 0, 0, 1))"

definition ex_normalMatrix :: "mat4 \<Rightarrow> vec3 \<Rightarrow> vec3" where
  "ex_normalMatrix m n = n"

section \<open>Loops as folds\<close>

lemma for_loop_fold_aux:
  "0 \<le> i \<Longrightarrow> for_loop i n body s = fold body [nat i..<nat n] s"
proof (induction i n body s rule: for_loop.induct)
  case (1 i n body s)
  show ?case
  proof (cases "i < n")
    case True
    with "1.prems" have lt: "nat i < nat n" by simp
    have "for_loop i n body s = for_loop (i + 1) n body (body (nat i) s)"
      using True by (simp add: for_loop.simps [of i])
    also have "\<dots> = fold body [nat (i + 1)..<nat n] (body (nat i) s)"
      using "1.IH" [OF True] "1.prems" by simp
    also have "nat (i + 1) = Suc (nat i)" using "1.prems" by simp
    finally show ?thesis using lt by (simp add: upt_conv_Cons)
  next
    case False
    then show ?thesis by (simp add: for_loop.simps [of i])
  qed
qed

lemma for_loop_fold: "for_loop 0 n body s = fold body [0..<nat n] s"
  using for_loop_fold_aux [of 0 n body s] by simp

lemma fold_list_update:
  "k \<le> length xs \<Longrightarrow>
   fold (\<lambda>i ys. ys[i := g i (ys ! i)]) [0..<k] xs =
     map (\<lambda>j. if j < k then g j (xs ! j) else xs ! j) [0..<length xs]"
proof (induction k)
  case 0
  show ?case by (simp add: map_nth)
next
  case (Suc k)
  then have IH: "fold (\<lambda>i ys. ys[i := g i (ys ! i)]) [0..<k] xs =
     map (\<lambda>j. if j < k then g j (xs ! j) else xs ! j) [0..<length xs]" by simp
  show ?case using Suc.prems
    by (auto simp: IH intro!: nth_equalityI simp: nth_list_update less_Suc_eq)
qed

lemma fold_vertices_update:
  assumes body: "\<And>i m. body i m = m\<lparr>vertices := (vertices m)[i := h i (vertices m ! i)]\<rparr>"
    and k: "k \<le> length (vertices m)"
  shows "fold body [0..<k] m =
     m\<lparr>vertices := map (\<lambda>j. if j < k then h j (vertices m ! j) else vertices m ! j)
                      [0..<length (vertices m)]\<rparr>"
  using k
proof (induction k)
  case 0
  show ?case by (simp add: map_nth)
next
  case (Suc k)
  then have IH: "fold body [0..<k] m =
     m\<lparr>vertices := map (\<lambda>j. if j < k then h j (vertices m ! j) else vertices m ! j)
                      [0..<length (vertices m)]\<rparr>" by simp
  have "fold body [0..<Suc k] m = body k (fold body [0..<k] m)" by simp
  also have "\<dots> = m\<lparr>vertices := (map (\<lambda>j. if j < k then h j (vertices m ! j) else vertices m ! j)
                      [0..<length (vertices m)])[k := h k (vertices m ! k)]\<rparr>"
    using Suc.prems by (simp add: IH body)
  also have "(map (\<lambda>j. if j < k then h j (vertices m ! j) else vertices m ! j)
                      [0..<length (vertices m)])[k := h k (vertices m ! k)]
      = map (\<lambda>j. if j < Suc k then h j (vertices m ! j) else vertices m ! j)
                      [0..<length (vertices m)]"
    using Suc.prems by (auto intro!: nth_equalityI simp: nth_list_update less_Suc_eq)
  finally show ?case .
qed

section \<open>Properties of the explosion state machine\<close>

lemma store_loop:
  "for_loop 0 (int (length (vertices m))) (store_original m)
     (replicate (length (vertices m)) z) = map capture (vertices m)"
proof -
  let ?n = "length (vertices m)"
  have "fold (\<lambda>i ys. ys[i := (\<lambda>i _. capture (vertices m ! i)) i (ys ! i)]) [0..<?n] (replicate ?n z)
      = map (\<lambda>j. if j < ?n then capture (vertices m ! j) else replicate ?n z ! j)
          [0..<length (replicate ?n z)]"
    by (rule fold_list_update) simp
  moreover have "store_original m = (\<lambda>i ys. ys[i := capture (vertices m ! i)])"
    by (simp add: store_original_def capture_def fun_eq_iff)
  ultimately show ?thesis
    by (auto simp: for_loop_fold intro!: nth_equalityI)
qed

lemma add_loop_aux:
  "k \<le> length ov \<Longrightarrow>
   fold (add_original ov) [0..<k] c =
     vadd c (sum_list (map originalX (take k ov)),
             sum_list (map originalY (take k ov)),
             sum_list (map originalZ (take k ov)))"
proof (induction k)
  case 0
  show ?case by (cases c) simp
next
  case (Suc k)
  then show ?case
    by (cases c) (simp add: add_original_def take_Suc_conv_app_nth)
qed

lemma center_loop:
  "sdiv (for_loop 0 (int (length ov)) (add_original ov) zero3) (real (length ov)) =
     snapshot_mean ov"
  by (simp add: for_loop_fold add_loop_aux zero3_def snapshot_mean_def)

lemma coords_set_coords [simp]: "coords (set_coords q u) = q"
  by (cases q) (simp add: coords_def set_coords_def)

lemma explode_vertex_eq:
  "explode_vertex ov c f i m =
     m\<lparr>vertices := (vertices m)[i := (\<lambda>i. set_coords (displaced (baseline (ov ! i)) c f)) i (vertices m ! i)]\<rparr>"
  by (cases c; cases "vnormalize (vsub (baseline (ov ! i)) c)")
     (simp add: explode_vertex_def displaced_def set_coords_def baseline_def Let_def)

lemma explode_loop:
  "for_loop 0 (int (length (vertices m))) (explode_vertex ov c f) m =
     m\<lparr>vertices := map (\<lambda>j. set_coords (displaced (baseline (ov ! j)) c f) (vertices m ! j))
                      [0..<length (vertices m)]\<rparr>"
  using fold_vertices_update [of "explode_vertex ov c f"
      "\<lambda>i. set_coords (displaced (baseline (ov ! i)) c f)" "length (vertices m)" m]
  by (simp add: for_loop_fold explode_vertex_eq cong: map_cong)

lemma restore_vertex_eq:
  "restore_vertex ov i m =
     m\<lparr>vertices := (vertices m)[i := (\<lambda>i. set_coords (baseline (ov ! i))) i (vertices m ! i)]\<rparr>"
  by (simp add: restore_vertex_def set_coords_def baseline_def)

lemma restore_loop:
  "for_loop 0 (int (length (vertices m))) (restore_vertex ov) m =
     m\<lparr>vertices := map (\<lambda>j. set_coords (baseline (ov ! j)) (vertices m ! j))
                      [0..<length (vertices m)]\<rparr>"
  using fold_vertices_update [of "restore_vertex ov"
      "\<lambda>i. set_coords (baseline (ov ! i))" "length (vertices m)" m]
  by (simp add: for_loop_fold restore_vertex_eq cong: map_cong)

lemma computeNormals_length [simp]:
  "length (vertices (computeNormals nrm m)) = length (vertices m)"
  by (simp add: computeNormals_def)

lemma computeNormals_coords [simp]:
  "i < length (vertices m) \<Longrightarrow>
   coords (vertices (computeNormals nrm m) ! i) = coords (vertices m ! i)"
  by (simp add: computeNormals_def coords_def)

lemma computeNormals_numberOfVertices [simp]:
  "numberOfVertices (computeNormals nrm m) = numberOfVertices m"
  by (simp add: computeNormals_def)

lemma updateExplosion_initialized:
  assumes "initialized model w m ov"
  shows "\<exists>m'. models (updateExplosion nrm model factor w) model = Some m' \<and>
           explodedModels (updateExplosion nrm model factor w) model = Some ov \<and>
           numberOfVertices m' = numberOfVertices m \<and>
           length (vertices m') = length (vertices m) \<and>
           (\<forall>i < length (vertices m).
              coords (vertices m' ! i) = displaced (baseline (ov ! i)) (snapshot_mean ov) factor)"
proof -
  from assms have len: "length (vertices m) = length ov" by (simp add: initialized_def)
  have "sdiv (for_loop 0 (int (length (vertices m))) (add_original ov) zero3)
          (real (length (vertices m))) = snapshot_mean ov"
    unfolding len by (rule center_loop)
  with assms show ?thesis
    by (simp add: initialized_def updateExplosion_def Let_def explode_loop)
qed

lemma resetExplosion_initialized:
  assumes "initialized model w m ov"
  shows "\<exists>m'. models (resetExplosion nrm model w) model = Some m' \<and>
           explodedModels (resetExplosion nrm model w) model = Some ov \<and>
           numberOfVertices m' = numberOfVertices m \<and>
           length (vertices m') = length (vertices m) \<and>
           (\<forall>i < length (vertices m). coords (vertices m' ! i) = baseline (ov ! i))"
  using assms
  by (simp add: initialized_def resetExplosion_def Let_def restore_loop)

lemma initializeExplosion_fresh:
  assumes "model \<noteq> 0" "models w model = Some m" "explodedModels w model = None"
    "numberOfVertices m = int (length (vertices m))"
  shows "initializeExplosion model w =
           w\<lparr>explodedModels := (explodedModels w)(model \<mapsto> map capture (vertices m))\<rparr>"
  using assms by (simp add: initializeExplosion_def Let_def store_loop)

subsection \<open>Lengths of vectors\<close>

lemma dot_self_nonneg [simp]: "0 \<le> dot u u"
  by (cases u) simp

lemma vlength_gt_iff: "0 \<le> c \<Longrightarrow> vlength u > c \<longleftrightarrow> dot u u > c * c"
proof -
  assume c: "0 \<le> c"
  have "vlength u > c \<longleftrightarrow> sqrt (dot u u) > sqrt (c * c)"
    using c by (simp add: vlength_def)
  also have "\<dots> \<longleftrightarrow> dot u u > c * c" by (rule real_sqrt_less_iff)
  finally show ?thesis .
qed

lemma vlength_gt_eps: "vlength u > 1 / 10000 \<longleftrightarrow> dot u u > 1 / 100000000"
  using vlength_gt_iff [of "1 / 10000" u] by simp

lemma dot_smul: "dot (smul u k) (smul u k) = k * k * dot u u"
  by (cases u) (simp add: algebra_simps)

lemma vlength_vnormalize: "dot u u \<noteq> 0 \<Longrightarrow> vlength (vnormalize u) = 1"
proof -
  assume nz: "dot u u \<noteq> 0"
  then have pos: "0 < dot u u" using dot_self_nonneg [of u] by linarith
  have "dot (vnormalize u) (vnormalize u) = (1 / sqrt (dot u u)) * (1 / sqrt (dot u u)) * dot u u"
    by (simp add: vnormalize_def dot_smul)
  also have "\<dots> = dot u u / (sqrt (dot u u) * sqrt (dot u u))" by simp
  also have "\<dots> = 1" using pos by simp
  finally show ?thesis by (simp add: vlength_def)
qed

lemma sqrt_sq: "0 \<le> r \<Longrightarrow> sqrt (r * r) = r"
  by simp

subsection \<open>Positions after each operation\<close>

lemma ex_initialized: "initialized 1 (initializeExplosion 1 ex_world) ex_model ex_snapshot"
proof -
  have "initializeExplosion 1 ex_world =
      ex_world\<lparr>explodedModels := (explodedModels ex_world)(1 \<mapsto> map capture (vertices ex_model))\<rparr>"
    by (rule initializeExplosion_fresh) (simp_all add: ex_world_def ex_model_def)
  then show ?thesis
    by (simp add: initialized_def ex_snapshot_def ex_world_def) (simp add: ex_model_def)
qed

lemma s25: "sqrt 25 = 5" using sqrt_sq [of 5] by simp

lemma positions_of_updateExplosion:
  assumes "initialized model w m ov"
  shows "length (positions_of model (updateExplosion nrm model factor w)) = length ov"
    and "i < length ov \<Longrightarrow> positions_of model (updateExplosion nrm model factor w) ! i =
           displaced (baseline (ov ! i)) (snapshot_mean ov) factor"
proof -
  from assms have len: "length ov = length (vertices m)" by (simp add: initialized_def)
  from updateExplosion_initialized [OF assms, of nrm factor] obtain m' where
    m': "models (updateExplosion nrm model factor w) model = Some m'"
        "length (vertices m') = length (vertices m)"
        "\<forall>i < length (vertices m).
              coords (vertices m' ! i) = displaced (baseline (ov ! i)) (snapshot_mean ov) factor"
    by blast
  show "length (positions_of model (updateExplosion nrm model factor w)) = length ov"
    by (simp add: positions_of_def m' len)
  show "positions_of model (updateExplosion nrm model factor w) ! i =
           displaced (baseline (ov ! i)) (snapshot_mean ov) factor" if "i < length ov"
    using that m' by (simp add: positions_of_def len)
qed

lemma positions_of_resetExplosion:
  assumes "initialized model w m ov"
  shows "positions_of model (resetExplosion nrm model w) = map baseline ov"
proof -
  from assms have len: "length ov = length (vertices m)" by (simp add: initialized_def)
  from resetExplosion_initialized [OF assms, of nrm] obtain m' where
    m': "models (resetExplosion nrm model w) model = Some m'"
        "length (vertices m') = length (vertices m)"
        "\<forall>i < length (vertices m). coords (vertices m' ! i) = baseline (ov ! i)"
    by blast
  show ?thesis
    by (rule nth_equalityI) (simp_all add: positions_of_def m' len)
qed

lemma initialized_updateExplosion:
  assumes "initialized model w m ov"
  shows "\<exists>m'. initialized model (updateExplosion nrm model factor w) m' ov"
  using updateExplosion_initialized [OF assms, of nrm factor] assms
  by (auto simp: initialized_def)

lemma initialized_resetExplosion:
  assumes "initialized model w m ov"
  shows "\<exists>m'. initialized model (resetExplosion nrm model w) m' ov"
  using resetExplosion_initialized [OF assms, of nrm] assms
  by (auto simp: initialized_def)

lemma resetExplosion_uninitialized:
  "explodedModels w model = None \<Longrightarrow> resetExplosion nrm model w = w"
  by (simp add: resetExplosion_def)

text \<open>
  Claim C1, as the code has it.  For an initialized model, \<open>updateExplosion\<close> puts every
  vertex at its baseline plus a direction times the factor, the baseline being the
  snapshot entry and the origin the unweighted mean of the snapshot.  The direction is the
  normalized \<open>baseline - origin\<close> when that vector is longer than \<open>0.0001\<close>, and the fixed
  direction \<open>(0, 1, 0)\<close> otherwise: for a vertex at the origin, and also for every vertex
  within \<open>0.0001\<close> of it.
\<close>

theorem updateExplosion_displaces_from_baseline:
  assumes "initialized model w m ov"
  shows "length (positions_of model (updateExplosion nrm model factor w)) = length ov \<and>
    (\<forall>i < length ov.
       let b = baseline (ov ! i); d = vsub b (snapshot_mean ov);
           q = positions_of model (updateExplosion nrm model factor w) ! i
       in (vlength d > 1 / 10000 \<longrightarrow> q = vadd b (smul (vnormalize d) factor)) \<and>
          (vlength d \<le> 1 / 10000 \<longrightarrow> q = vadd b (smul (0, 1, 0) factor)) \<and>
          (b = snapshot_mean ov \<longrightarrow> q = vadd b (smul (0, 1, 0) factor)))"
proof -
  have zero: "vlength (vsub b b) = 0" for b
    by (cases b) (simp add: vlength_def)
  show ?thesis
    using positions_of_updateExplosion [OF assms, where nrm = nrm and factor = factor]
    by (auto simp: Let_def displaced_def zero)
qed

lemma ex_baselines:
  "baseline (ex_snapshot ! 0) = (0, 0, 0)" "baseline (ex_snapshot ! 4) = (3, 4, 0)"
  "snapshot_mean ex_snapshot = (3, 4, 0)" "length ex_snapshot = 5"
  by (simp_all add: ex_snapshot_def ex_model_def capture_def mk_vertex_def baseline_def
      snapshot_mean_def)

text \<open>The rectangle of \<open>ex_model\<close>, exploded by the factor 2: vertex 0 is 5 away from the
  origin \<open>(3, 4, 0)\<close>, vertex 4 lies on it.\<close>

theorem updateExplosion_displaces_from_baseline_witness:
  "initialized 1 (initializeExplosion 1 ex_world) ex_model ex_snapshot \<and>
   positions_of 1 (updateExplosion nrm0 1 2 (initializeExplosion 1 ex_world)) ! 0 = (- 6 / 5, - 8 / 5, 0) \<and>
   positions_of 1 (updateExplosion nrm0 1 2 (initializeExplosion 1 ex_world)) ! 4 = (3, 6, 0)"
proof -
  have far: "vlength (vsub (0, 0, 0) (3, 4, 0)) > 1 / 10000"
    unfolding vlength_gt_eps by simp
  have dir: "vnormalize (- 3, - 4, 0) = (- 3 / 5, - 4 / 5, 0)"
    by (simp add: vnormalize_def s25)
  note T = updateExplosion_displaces_from_baseline [OF ex_initialized, where nrm = nrm0 and factor = 2]
  have "positions_of 1 (updateExplosion nrm0 1 2 (initializeExplosion 1 ex_world)) ! 0 = (- 6 / 5, - 8 / 5, 0)"
    using T [THEN conjunct2, THEN spec, of 0] far
    by (simp add: Let_def ex_baselines dir)
  moreover have "positions_of 1 (updateExplosion nrm0 1 2 (initializeExplosion 1 ex_world)) ! 4 = (3, 6, 0)"
    using T [THEN conjunct2, THEN spec, of 4]
    by (simp add: Let_def ex_baselines)
  ultimately show ?thesis using ex_initialized by simp
qed

lemma near_initialized:
  "initialized 1 near_world near_model (map capture (vertices near_model))"
proof -
  let ?w = "\<lparr>models = [1 \<mapsto> near_model], explodedModels = Map.empty\<rparr>"
  have "initializeExplosion 1 ?w =
      ?w\<lparr>explodedModels := (explodedModels ?w)(1 \<mapsto> map capture (vertices near_model))\<rparr>"
    by (rule initializeExplosion_fresh) (simp_all add: near_model_def)
  then show ?thesis
    by (simp add: initialized_def near_world_def) (simp add: near_model_def)
qed

text \<open>
  Claim C1 as stated fails for a vertex near the origin but not on it: vertex 0 of
  \<open>near_model\<close> is \<open>0.00005\<close> away from the origin \<open>(0, 0, 0)\<close>, and the factor 1 moves it
  along \<open>(0, 1, 0)\<close>, not along its normalized offset \<open>(1, 0, 0)\<close>.
\<close>

theorem updateExplosion_near_origin_counterexample:
  "explodedModels near_world 1 = Some [\<lparr>originalX = 1 / 20000, originalY = 0, originalZ = 0\<rparr>,
                                       \<lparr>originalX = - 1 / 20000, originalY = 0, originalZ = 0\<rparr>] \<and>
   snapshot_mean [\<lparr>originalX = 1 / 20000, originalY = 0, originalZ = 0\<rparr>,
                  \<lparr>originalX = - 1 / 20000, originalY = 0, originalZ = 0\<rparr>] = (0, 0, 0) \<and>
   positions_of 1 (updateExplosion nrm0 1 1 near_world) ! 0 = (1 / 20000, 1, 0) \<and>
   vadd (1 / 20000, 0, 0) (smul (vnormalize (vsub (1 / 20000, 0, 0) (0, 0, 0))) 1) = (1 / 20000 + 1, 0, 0) \<and>
   positions_of 1 (updateExplosion nrm0 1 1 near_world) ! 0 \<noteq>
     vadd (1 / 20000, 0, 0) (smul (vnormalize (vsub (1 / 20000, 0, 0) (0, 0, 0))) 1)"
proof -
  have s: "sqrt 400000000 = 20000" using sqrt_sq [of 20000] by simp
  have snap: "map capture (vertices near_model) =
      [\<lparr>originalX = 1 / 20000, originalY = 0, originalZ = 0\<rparr>,
       \<lparr>originalX = - 1 / 20000, originalY = 0, originalZ = 0\<rparr>]"
    by (simp add: near_model_def capture_def mk_vertex_def)
  have "positions_of 1 (updateExplosion nrm0 1 1 near_world) ! 0 =
      displaced (baseline (map capture (vertices near_model) ! 0))
        (snapshot_mean (map capture (vertices near_model))) 1"
    by (rule positions_of_updateExplosion(2) [OF near_initialized]) (simp add: near_model_def)
  also have "\<dots> = (1 / 20000, 1, 0)"
    unfolding displaced_def vlength_gt_eps
    by (simp add: snap baseline_def snapshot_mean_def)
  finally have p: "positions_of 1 (updateExplosion nrm0 1 1 near_world) ! 0 = (1 / 20000, 1, 0)" .
  have e: "explodedModels near_world 1 = Some (map capture (vertices near_model))"
    using near_initialized by (simp add: initialized_def)
  have d: "vadd (1 / 20000, 0, 0) (smul (vnormalize (vsub (1 / 20000, 0, 0) (0, 0, 0))) 1) =
      (1 / 20000 + 1, 0, 0)"
    by (simp add: vnormalize_def real_sqrt_divide s)
  show ?thesis
    unfolding p e snap d
    by (simp add: snapshot_mean_def)
qed

text \<open>
  Claim C7.  For an initialized model, \<open>updateExplosion\<close> with the factor 1 followed by
  \<open>resetExplosion\<close> leaves every vertex at the coords the snapshot holds for it; on a
  model with no snapshot \<open>resetExplosion\<close> changes nothing.
\<close>

theorem explode_then_reset_restores_baseline:
  "(initialized model w m ov \<longrightarrow>
      positions_of model (resetExplosion nrm model (updateExplosion nrm model 1 w)) = map baseline ov) \<and>
   (explodedModels w model = None \<longrightarrow> resetExplosion nrm model w = w)"
proof (intro conjI impI)
  assume "initialized model w m ov"
  from initialized_updateExplosion [OF this, of nrm 1] obtain m' where
    "initialized model (updateExplosion nrm model 1 w) m' ov" ..
  then show "positions_of model (resetExplosion nrm model (updateExplosion nrm model 1 w)) = map baseline ov"
    by (rule positions_of_resetExplosion)
next
  assume "explodedModels w model = None"
  then show "resetExplosion nrm model w = w" by (rule resetExplosion_uninitialized)
qed

theorem explode_then_reset_restores_baseline_witness:
  "initialized 1 (initializeExplosion 1 ex_world) ex_model ex_snapshot \<and>
   positions_of 1 (resetExplosion nrm0 1 (updateExplosion nrm0 1 1 (initializeExplosion 1 ex_world))) =
     [(0, 0, 0), (6, 0, 0), (6, 8, 0), (0, 8, 0), (3, 4, 0)] \<and>
   positions_of 1 ex_world = [(0, 0, 0), (6, 0, 0), (6, 8, 0), (0, 8, 0), (3, 4, 0)] \<and>
   explodedModels ex_world 1 = None \<and> resetExplosion nrm0 1 ex_world = ex_world"
proof -
  have n: "explodedModels ex_world 1 = None" by (simp add: ex_world_def)
  have b: "map baseline ex_snapshot = [(0, 0, 0), (6, 0, 0), (6, 8, 0), (0, 8, 0), (3, 4, 0)]"
    by (simp add: ex_snapshot_def ex_model_def capture_def mk_vertex_def baseline_def)
  have p: "positions_of 1 ex_world = [(0, 0, 0), (6, 0, 0), (6, 8, 0), (0, 8, 0), (3, 4, 0)]"
    by (simp add: positions_of_def ex_world_def ex_model_def coords_def mk_vertex_def)
  from explode_then_reset_restores_baseline [where model = 1 and w = "initializeExplosion 1 ex_world" and m = ex_model and ov = ex_snapshot and nrm = nrm0]
    explode_then_reset_restores_baseline [where model = 1 and w = ex_world and m = ex_model and ov = ex_snapshot and nrm = nrm0]
    ex_initialized n b p
  show ?thesis by simp
qed

text \<open>
  Claim C8.  On a live model with no snapshot, \<open>updateExplosion\<close> only initializes: the
  models, and so every vertex coords, are as before, whatever the factor, and the new
  snapshot holds the current coords of every vertex.
\<close>

theorem first_updateExplosion_only_initializes:
  assumes "model \<noteq> 0" "models w model = Some m" "explodedModels w model = None"
    "numberOfVertices m = int (length (vertices m))"
  shows "models (updateExplosion nrm model factor w) = models w \<and>
         positions_of model (updateExplosion nrm model factor w) = positions_of model w \<and>
         explodedModels (updateExplosion nrm model factor w) model = Some (map capture (vertices m)) \<and>
         map baseline (map capture (vertices m)) = positions_of model w"
proof -
  have "updateExplosion nrm model factor w = initializeExplosion model w"
    using assms by (simp add: updateExplosion_def)
  also have "\<dots> = w\<lparr>explodedModels := (explodedModels w)(model \<mapsto> map capture (vertices m))\<rparr>"
    using assms by (rule initializeExplosion_fresh)
  finally show ?thesis
    using assms by (simp add: positions_of_def baseline_def capture_def coords_def)
qed

theorem first_updateExplosion_only_initializes_witness:
  "(1::nat) \<noteq> 0 \<and> models ex_world 1 = Some ex_model \<and> explodedModels ex_world 1 = None \<and>
   numberOfVertices ex_model = int (length (vertices ex_model)) \<and>
   positions_of 1 (updateExplosion nrm0 1 1 ex_world) =
     [(0, 0, 0), (6, 0, 0), (6, 8, 0), (0, 8, 0), (3, 4, 0)] \<and>
   explodedModels (updateExplosion nrm0 1 1 ex_world) 1 = Some ex_snapshot"
proof -
  have h: "(1::nat) \<noteq> 0" "models ex_world 1 = Some ex_model" "explodedModels ex_world 1 = None"
    "numberOfVertices ex_model = int (length (vertices ex_model))"
    by (simp_all add: ex_world_def) (simp add: ex_model_def)
  have p: "positions_of 1 ex_world = [(0, 0, 0), (6, 0, 0), (6, 8, 0), (0, 8, 0), (3, 4, 0)]"
    by (simp add: positions_of_def ex_world_def ex_model_def coords_def mk_vertex_def)
  from first_updateExplosion_only_initializes [OF h, where nrm = nrm0 and factor = 1] h p
  show ?thesis by (simp add: ex_snapshot_def)
qed

section \<open>Properties of the mesh\<close>

lemma fold_append_each: "fold (\<lambda>j acc. acc @ g j) js acc = acc @ concat (map g js)"
  by (induction js arbitrary: acc) simp_all

lemma triangulate_concat:
  "triangulate polygon idx =
     idx @ concat (map (\<lambda>j. [pv polygon ! 0, pv polygon ! j, pv polygon ! (j + 1)])
                       [1..<nat (noSides polygon - 1)])"
proof -
  have "triangulate polygon idx =
      fold (push_triangle polygon) [nat 1..<nat (noSides polygon - 1)] idx"
    unfolding triangulate_def by (rule for_loop_fold_aux) simp
  also have "push_triangle polygon =
      (\<lambda>j acc. acc @ [pv polygon ! 0, pv polygon ! j, pv polygon ! (j + 1)])"
    by (simp add: push_triangle_def fun_eq_iff)
  finally show ?thesis by (simp add: fold_append_each)
qed

lemma triples_concat:
  "triples (concat (map (\<lambda>j. [f j, g j, h j]) js)) = map (\<lambda>j. (f j, g j, h j)) js"
  by (induction js) simp_all

lemma length_concat_triples:
  "length (concat (map (\<lambda>j. [f j, g j, h j]) js)) = 3 * length js"
  by (induction js) simp_all

text \<open>
  Claim C4.  For a polygon of \<open>n \<ge> 3\<close> sides with the indices \<open>v[0..n)\<close>, the constructor's
  inner loop appends exactly the \<open>n - 2\<close> triangles \<open>(v[0], v[i], v[i+1])\<close> for
  \<open>i = 1 .. n - 2\<close>, in this order, to the index buffer; it looks at nothing but the
  indices, so it checks neither convexity nor planarity.
\<close>

theorem triangulate_fan:
  assumes "noSides polygon = int n" and "3 \<le> n" and "length (pv polygon) = n"
  shows "triples (triangulate polygon []) =
           map (\<lambda>i. (pv polygon ! 0, pv polygon ! i, pv polygon ! (i + 1))) [1..<n - 1] \<and>
         length (triples (triangulate polygon [])) = n - 2 \<and>
         length (triangulate polygon []) = 3 * (n - 2) \<and>
         triangulate polygon idx = idx @ triangulate polygon []"
proof -
  have n: "nat (noSides polygon - 1) = n - 1" using assms by simp
  have t: "triangulate polygon [] =
      concat (map (\<lambda>j. [pv polygon ! 0, pv polygon ! j, pv polygon ! (j + 1)]) [1..<n - 1])"
    by (simp add: triangulate_concat n)
  have "triples (triangulate polygon []) =
      map (\<lambda>i. (pv polygon ! 0, pv polygon ! i, pv polygon ! (i + 1))) [1..<n - 1]"
    unfolding t by (rule triples_concat)
  moreover have "length (triangulate polygon []) = 3 * (n - 2)"
    unfolding t length_concat_triples using assms by simp
  moreover have "triangulate polygon idx = idx @ triangulate polygon []"
    by (simp add: triangulate_concat)
  ultimately show ?thesis using assms by simp
qed

theorem triangulate_fan_witness:
  "noSides \<lparr>noSides = 5, pv = [10, 11, 12, 13, 14]\<rparr> = int 5 \<and> (3::nat) \<le> 5 \<and>
   length (pv \<lparr>noSides = 5, pv = [10, 11, 12, 13, 14]\<rparr>) = 5 \<and>
   triples (triangulate \<lparr>noSides = 5, pv = [10, 11, 12, 13, 14]\<rparr> []) =
     [(10, 11, 12), (10, 12, 13), (10, 13, 14)] \<and>
   length (triangulate \<lparr>noSides = 5, pv = [10, 11, 12, 13, 14]\<rparr> []) = 9"
proof -
  have u: "[Suc 0..<4] = [Suc 0, 2, 3]" by (simp add: upt_conv_Cons)
  from triangulate_fan [of "\<lparr>noSides = 5, pv = [10, 11, 12, 13, 14]\<rparr>" 5 "[]"]
  show ?thesis by (simp add: u)
qed

lemma tri_loop_fold_aux:
  "3 dvd (length idx - i) \<Longrightarrow>
   tri_loop i idx body s = fold (\<lambda>(a, b, c). body a b c) (triples (drop i idx)) s"
proof (induction i idx body s rule: tri_loop.induct)
  case (1 i idx body s)
  show ?case
  proof (cases "i < length idx")
    case True
    from "1.prems" obtain k where k: "length idx - i = 3 * k" by (auto simp: dvd_def)
    with True have k0: "k \<noteq> 0" by auto
    with k have three: "i + 2 < length idx" by (cases k) simp_all
    from k0 k have "length idx - (i + 3) = 3 * (k - 1)" by simp
    then have dvd: "3 dvd (length idx - (i + 3))" by simp
    have d: "drop i idx = idx ! i # idx ! (i + 1) # idx ! (i + 2) # drop (i + 3) idx"
      using three by (simp add: Cons_nth_drop_Suc [symmetric] numeral_3_eq_3 numeral_2_eq_2)
    have "tri_loop i idx body s =
        tri_loop (i + 3) idx body (body (idx ! i) (idx ! (i + 1)) (idx ! (i + 2)) s)"
      using True by (simp add: tri_loop.simps [of i])
    also have "\<dots> = fold (\<lambda>(a, b, c). body a b c) (triples (drop (i + 3) idx))
        (body (idx ! i) (idx ! (i + 1)) (idx ! (i + 2)) s)"
      by (rule "1.IH" [OF True dvd])
    finally show ?thesis by (simp add: d)
  next
    case False
    then show ?thesis by (simp add: tri_loop.simps [of i])
  qed
qed

lemma tri_loop_fold:
  "3 dvd length idx \<Longrightarrow> tri_loop 0 idx body s = fold (\<lambda>(a, b, c). body a b c) (triples idx) s"
  using tri_loop_fold_aux [of idx 0 body s] by simp

lemma map_list_update_same:
  "f (g (xs ! i)) = f (xs ! i) \<Longrightarrow> map f (xs[i := g (xs ! i)]) = map f xs"
  by (cases "i < length xs") (simp_all add: map_update list_update_same_conv list_update_beyond)

lemma fold_inv:
  assumes "\<And>x s. P s \<Longrightarrow> P (body x s)" and "P s"
  shows "P (fold body xs s)"
  using assms(2) by (induction xs arbitrary: s) (simp_all add: assms(1))

lemma tri_loop_inv:
  assumes "\<And>a b c s. P s \<Longrightarrow> P (body a b c s)" and "P s"
  shows "P (tri_loop i idx body s)"
  using assms
proof (induction i idx body s rule: tri_loop.induct)
  case (1 i idx body s)
  show ?case
  proof (cases "i < length idx")
    case True
    have "P (body (idx ! i) (idx ! (i + 1)) (idx ! (i + 2)) s)"
      using "1.prems"(2) by (rule "1.prems"(1))
    then have "P (tri_loop (i + 3) idx body (body (idx ! i) (idx ! (i + 1)) (idx ! (i + 2)) s))"
      using "1.IH" [OF True] "1.prems"(1) by blast
    then show ?thesis using True by (simp add: tri_loop.simps [of i])
  next
    case False
    then show ?thesis using "1.prems" by (simp add: tri_loop.simps [of i])
  qed
qed

lemma same_coords_count_incident:
  "same_coords om om' \<Longrightarrow> same_coords om (count_incident i om')"
  using map_list_update_same
    [of coords "\<lambda>u. u\<lparr>numIcidentTri := numIcidentTri u + 1\<rparr>" "vertices om'" i]
  by (simp add: same_coords_def count_incident_def coords_def)

lemma same_coords_add_face_normal:
  "same_coords om (snd s) \<Longrightarrow> same_coords om (snd (add_face_normal a b c s))"
  by (cases s) (simp add: add_face_normal_def Let_def same_coords_count_incident)

lemma same_coords_normalize_normal:
  "same_coords om (snd s) \<Longrightarrow> same_coords om (snd (normalize_normal i s))"
proof (cases s)
  case (Pair vs om')
  have "map coords ((vertices om')[i := (\<lambda>u. u\<lparr>vnormal := n\<rparr>) (vertices om' ! i)]) =
      map coords (vertices om')" for n
    by (rule map_list_update_same) (simp add: coords_def)
  then show "same_coords om (snd s) \<Longrightarrow> same_coords om (snd (normalize_normal i s))"
    by (simp add: Pair normalize_normal_def Let_def same_coords_def)
qed

lemma same_coords_refl [simp]: "same_coords om om"
  by (simp add: same_coords_def)

lemma tri_loop_same_coords:
  "same_coords om (snd s) \<Longrightarrow> same_coords om (snd (tri_loop i idx add_face_normal s))"
  by (rule tri_loop_inv [where P = "\<lambda>s. same_coords om (snd s)"])
     (simp_all add: same_coords_add_face_normal)

lemma fst_fold:
  assumes "\<And>x s. fst (body x s) = g x (fst s)"
  shows "fst (fold body xs s) = fold g xs (fst s)"
  by (induction xs arbitrary: s) (simp_all add: assms)

lemma snd_fold:
  assumes "\<And>x s. snd (body x s) = g x (snd s)"
  shows "snd (fold body xs s) = fold g xs (snd s)"
  by (induction xs arbitrary: s) (simp_all add: assms)

lemma fst_add_face_normal:
  "fst (add_face_normal a b c s) = add_face_normal_vs a b c (fst s)"
  by (cases s) (simp add: add_face_normal_def add_face_normal_vs_def face_normal_def Let_def)

lemma length_add_to_normal [simp]: "length (add_to_normal i f vs) = length vs"
  by (simp add: add_to_normal_def)

lemma position_add_to_normal [simp]:
  "map position (add_to_normal i f vs) = map position vs"
  unfolding add_to_normal_def
  by (rule map_list_update_same [of position "\<lambda>u. u\<lparr>normal := vadd (normal u) f\<rparr>"]) simp

lemma faceCenter_add_to_normal [simp]:
  "map faceCenter (add_to_normal i f vs) = map faceCenter vs"
  unfolding add_to_normal_def
  by (rule map_list_update_same [of faceCenter "\<lambda>u. u\<lparr>normal := vadd (normal u) f\<rparr>"]) simp

lemma length_add_face_normal_vs [simp]: "length (add_face_normal_vs a b c vs) = length vs"
  by (simp add: add_face_normal_vs_def)

lemma position_add_face_normal_vs [simp]:
  "map position (add_face_normal_vs a b c vs) = map position vs"
  by (simp add: add_face_normal_vs_def)

lemma faceCenter_add_face_normal_vs [simp]:
  "map faceCenter (add_face_normal_vs a b c vs) = map faceCenter vs"
  by (simp add: add_face_normal_vs_def)

lemma fst_accumulate_normals:
  "3 dvd length idx \<Longrightarrow>
   fst (accumulate_normals idx (vs, om)) =
     fold (\<lambda>(a, b, c). add_face_normal_vs a b c) (triples idx) (zero_normals vs)"
proof -
  assume d: "3 dvd length idx"
  have "fst (fold (\<lambda>(a, b, c). add_face_normal a b c) (triples idx) (zero_normals vs, om)) =
      fold (\<lambda>(a, b, c). add_face_normal_vs a b c) (triples idx) (fst (zero_normals vs, om))"
    by (rule fst_fold) (simp add: fst_add_face_normal split: prod.splits)
  then show ?thesis by (simp add: accumulate_normals_def tri_loop_fold [OF d])
qed

lemma fold_add_face_normal_vs [simp]:
  "length (fold (\<lambda>(a, b, c). add_face_normal_vs a b c) ts vs) = length vs"
  "map position (fold (\<lambda>(a, b, c). add_face_normal_vs a b c) ts vs) = map position vs"
  "map faceCenter (fold (\<lambda>(a, b, c). add_face_normal_vs a b c) ts vs) = map faceCenter vs"
  by (induction ts arbitrary: vs) (simp_all split: prod.splits)

lemma zero_normals_simps [simp]:
  "length (zero_normals vs) = length vs"
  "map position (zero_normals vs) = map position vs"
  "map faceCenter (zero_normals vs) = map faceCenter vs"
  "map normal (zero_normals vs) = replicate (length vs) zero3"
  by (induction vs) (simp_all add: zero_normals_def)

lemma accumulate_normals_simps:
  assumes "3 dvd length idx"
  shows "length (fst (accumulate_normals idx (vs, om))) = length vs"
    and "map position (fst (accumulate_normals idx (vs, om))) = map position vs"
    and "map faceCenter (fst (accumulate_normals idx (vs, om))) = map faceCenter vs"
  by (simp_all add: fst_accumulate_normals [OF assms])

lemma fst_normalize_normal:
  "fst (normalize_normal i s) = (fst s)[i := normalize_vertex (fst s ! i)]"
  by (cases s) (simp add: normalize_normal_def normalize_vertex_def Let_def)

lemma fst_normalize_loop:
  "fst (for_loop 0 (int (length vs)) normalize_normal (vs, om)) = map normalize_vertex vs"
proof -
  have "fst (fold normalize_normal [0..<length vs] (vs, om)) =
      fold (\<lambda>i ys. ys[i := normalize_vertex (ys ! i)]) [0..<length vs] (fst (vs, om))"
    by (rule fst_fold) (simp add: fst_normalize_normal)
  also have "\<dots> = map (\<lambda>j. if j < length vs then normalize_vertex (vs ! j) else vs ! j)
      [0..<length vs]"
    using fold_list_update [of "length vs" vs "\<lambda>i. normalize_vertex"] by simp
  also have "\<dots> = map normalize_vertex vs"
    by (rule nth_equalityI) simp_all
  finally show ?thesis by (simp add: for_loop_fold)
qed

lemma normalize_vertex_simps [simp]:
  "position (normalize_vertex u) = position u" "faceCenter (normalize_vertex u) = faceCenter u"
  by (simp_all add: normalize_vertex_def)

lemma calculateNormals_live:
  assumes "models w (offModel mesh) = Some om"
  shows "mvertices (fst (calculateNormals mesh w)) =
           map normalize_vertex (fst (accumulate_normals (indices mesh) (mvertices mesh, om)))"
    and "indices (fst (calculateNormals mesh w)) = indices mesh"
    and "offModel (fst (calculateNormals mesh w)) = offModel mesh"
    and "\<exists>om'. models (snd (calculateNormals mesh w)) = (models w)(offModel mesh \<mapsto> om') \<and>
           same_coords om om'"
    and "explodedModels (snd (calculateNormals mesh w)) = explodedModels w"
proof -
  obtain vs om1 where a: "accumulate_normals (indices mesh) (mvertices mesh, om) = (vs, om1)"
    by (cases "accumulate_normals (indices mesh) (mvertices mesh, om)")
  obtain vs2 om2 where n: "for_loop 0 (int (length vs)) normalize_normal (vs, om1) = (vs2, om2)"
    by (cases "for_loop 0 (int (length vs)) normalize_normal (vs, om1)")
  have c: "calculateNormals mesh w =
      (mesh\<lparr>mvertices := vs2\<rparr>, w\<lparr>models := (models w)(offModel mesh \<mapsto> om2)\<rparr>)"
    by (simp add: calculateNormals_def assms a n)
  have vs2: "vs2 = map normalize_vertex vs"
    using fst_normalize_loop [of vs om1] by (simp add: n)
  show "mvertices (fst (calculateNormals mesh w)) =
           map normalize_vertex (fst (accumulate_normals (indices mesh) (mvertices mesh, om)))"
    by (simp add: c vs2 a)
  show "indices (fst (calculateNormals mesh w)) = indices mesh" by (simp add: c)
  show "offModel (fst (calculateNormals mesh w)) = offModel mesh" by (simp add: c)
  show "explodedModels (snd (calculateNormals mesh w)) = explodedModels w" by (simp add: c)
  have "same_coords om (snd (accumulate_normals (indices mesh) (mvertices mesh, om)))"
    by (simp add: accumulate_normals_def tri_loop_same_coords)
  then have "same_coords om om1" by (simp add: a)
  then have "same_coords om (snd (for_loop 0 (int (length vs)) normalize_normal (vs, om1)))"
    unfolding for_loop_fold
    by (intro fold_inv [where P = "\<lambda>s. same_coords om (snd s)"])
       (simp_all add: same_coords_normalize_normal)
  then show "\<exists>om'. models (snd (calculateNormals mesh w)) = (models w)(offModel mesh \<mapsto> om') \<and>
           same_coords om om'"
    by (auto simp: c n)
qed

lemma fold_triangulate:
  "fold (\<lambda>i. triangulate (ps ! i)) js idx = idx @ concat (map (\<lambda>i. triangulate (ps ! i) []) js)"
proof (induction js arbitrary: idx)
  case Nil
  show ?case by simp
next
  case (Cons j js)
  have "triangulate (ps ! j) idx = idx @ triangulate (ps ! j) []"
    by (simp add: triangulate_concat)
  then show ?case by (simp add: Cons.IH)
qed

lemma dvd_length_triangulate: "3 dvd length (triangulate polygon [])"
  by (simp add: triangulate_concat length_concat_triples)

lemma dvd_length_concat:
  "(\<And>x. x \<in> set xss \<Longrightarrow> (3::nat) dvd length x) \<Longrightarrow> 3 dvd length (concat xss)"
  by (induction xss) simp_all

lemma dvd_length_ctor_indices: "3 dvd length (ctor_indices om)"
  unfolding ctor_indices_def
  by (rule dvd_length_concat) (auto simp: dvd_length_triangulate)

lemma set_triangulate:
  assumes "noSides polygon = int (length (pv polygon))"
  shows "set (triangulate polygon []) \<subseteq> set (pv polygon)"
proof -
  have "nat (noSides polygon - 1) = length (pv polygon) - 1" using assms by simp
  then show ?thesis
    by (auto simp: triangulate_concat intro!: nth_mem)
qed

lemma set_ctor_indices:
  assumes "off_model_ok om" and "k \<in> set (ctor_indices om)"
  shows "k < length (vertices om)"
proof -
  from assms(2) obtain i where i: "i < nat (numberOfPolygons om)"
    and k: "k \<in> set (triangulate (polygons om ! i) [])"
    by (auto simp: ctor_indices_def)
  from i assms(1) have p: "polygons om ! i \<in> set (polygons om)"
    by (simp add: off_model_ok_def)
  with assms(1) have "noSides (polygons om ! i) = int (length (pv (polygons om ! i)))"
    and b: "\<forall>k \<in> set (pv (polygons om ! i)). k < length (vertices om)"
    by (simp_all add: off_model_ok_def)
  with k set_triangulate [of "polygons om ! i"] show ?thesis by blast
qed

lemma fold_snoc_each: "fold (\<lambda>j acc. acc @ [g j]) js acc = acc @ map g js"
  by (induction js arbitrary: acc) simp_all

lemma push_vertex_loop:
  "for_loop 0 n (push_vertex junk om) [] =
     map (\<lambda>i. \<lparr>position = coords (vertices om ! i), normal = zero3, faceCenter = junk i\<rparr>)
       [0..<nat n]"
proof -
  have "push_vertex junk om =
      (\<lambda>i acc. acc @ [\<lparr>position = coords (vertices om ! i), normal = zero3, faceCenter = junk i\<rparr>])"
    by (simp add: push_vertex_def coords_def fun_eq_iff)
  then show ?thesis by (simp add: for_loop_fold fold_snoc_each)
qed

lemma set_face_center_simps [simp]:
  "length (set_face_center a b c vs) = length vs"
  "map position (set_face_center a b c vs) = map position vs"
  "map normal (set_face_center a b c vs) = map normal vs"
proof -
  have p: "map position (xs[i := (\<lambda>u. u\<lparr>faceCenter := q\<rparr>) (xs ! i)]) = map position xs" for xs i q
    by (rule map_list_update_same) simp
  have n: "map normal (xs[i := (\<lambda>u. u\<lparr>faceCenter := q\<rparr>) (xs ! i)]) = map normal xs" for xs i q
    by (rule map_list_update_same) simp
  show "length (set_face_center a b c vs) = length vs"
    by (simp add: set_face_center_def Let_def)
  show "map position (set_face_center a b c vs) = map position vs"
    by (simp add: set_face_center_def Let_def p)
  show "map normal (set_face_center a b c vs) = map normal vs"
    by (simp add: set_face_center_def Let_def n)
qed

lemma calculateFaceCenters_simps [simp]:
  "indices (calculateFaceCenters mesh) = indices mesh"
  "offModel (calculateFaceCenters mesh) = offModel mesh"
  "length (mvertices (calculateFaceCenters mesh)) = length (mvertices mesh)"
  "map position (mvertices (calculateFaceCenters mesh)) = map position (mvertices mesh)"
  "map normal (mvertices (calculateFaceCenters mesh)) = map normal (mvertices mesh)"
proof -
  let ?P = "\<lambda>vs. length vs = length (mvertices mesh) \<and>
      map position vs = map position (mvertices mesh) \<and> map normal vs = map normal (mvertices mesh)"
  have "?P (tri_loop 0 (indices mesh) set_face_center (mvertices mesh))"
    by (rule tri_loop_inv [where P = ?P]) simp_all
  then show "length (mvertices (calculateFaceCenters mesh)) = length (mvertices mesh)"
    "map position (mvertices (calculateFaceCenters mesh)) = map position (mvertices mesh)"
    "map normal (mvertices (calculateFaceCenters mesh)) = map normal (mvertices mesh)"
    by (simp_all add: calculateFaceCenters_def)
qed (simp_all add: calculateFaceCenters_def)

lemma calculateCenterAndRadius_simps [simp]:
  "indices (calculateCenterAndRadius mesh w) = indices mesh"
  "offModel (calculateCenterAndRadius mesh w) = offModel mesh"
  "mvertices (calculateCenterAndRadius mesh w) = mvertices mesh"
  by (simp_all add: calculateCenterAndRadius_def split: option.splits)

lemma position_comp_normalize_vertex [simp]: "position \<circ> normalize_vertex = position"
  by (simp add: fun_eq_iff)

lemma Mesh_ctor_live:
  assumes "p \<noteq> 0" and "models w p = Some om"
  shows "\<exists>mesh w' om'. Mesh_ctor junk p w = Inr (mesh, w') \<and>
           indices mesh = ctor_indices om \<and>
           map position (mvertices mesh) =
             map (\<lambda>i. coords (vertices om ! i)) [0..<nat (numberOfVertices om)] \<and>
           offModel mesh = p \<and>
           explodedModels w' = explodedModels w \<and>
           models w' = (models w)(p \<mapsto> om') \<and> same_coords om om'"
proof -
  define vs where "vs = for_loop 0 (numberOfVertices om) (push_vertex junk om) []"
  define mesh0 where "mesh0 = \<lparr>mvertices = vs, indices = ctor_indices om, centerOfMass = zero3,
                      boundingSphereRadius = 0, offModel = p\<rparr>"
  have idx: "for_loop 0 (numberOfPolygons om) (\<lambda>i. triangulate (polygons om ! i)) [] =
      ctor_indices om"
    by (simp add: for_loop_fold fold_triangulate ctor_indices_def)
  have live: "models w (offModel mesh0) = Some om" by (simp add: mesh0_def assms)
  obtain mesh1 w1 where c: "calculateNormals mesh0 w = (mesh1, w1)"
    by (cases "calculateNormals mesh0 w")
  from calculateNormals_live [OF live] c
  have m1: "mvertices mesh1 =
        map normalize_vertex (fst (accumulate_normals (indices mesh0) (mvertices mesh0, om)))"
    "indices mesh1 = indices mesh0" "offModel mesh1 = offModel mesh0"
    "explodedModels w1 = explodedModels w"
    and "\<exists>om'. models w1 = (models w)(offModel mesh0 \<mapsto> om') \<and> same_coords om om'"
    by simp_all
  then obtain om' where om': "models w1 = (models w)(p \<mapsto> om')" "same_coords om om'"
    by (auto simp: mesh0_def)
  have d: "3 dvd length (indices mesh0)" by (simp add: mesh0_def dvd_length_ctor_indices)
  have "map position (mvertices mesh1) =
      map position (fst (accumulate_normals (indices mesh0) (mvertices mesh0, om)))"
    by (simp add: m1)
  also have "\<dots> = map position (mvertices mesh0)"
    by (rule accumulate_normals_simps(2) [OF d])
  finally have pos: "map position (mvertices mesh1) = map position vs"
    by (simp add: mesh0_def)
  have "Mesh_ctor junk p w =
      Inr (calculateCenterAndRadius (calculateFaceCenters mesh1) w1, w1)"
    using assms by (simp add: Mesh_ctor_def Let_def idx vs_def [symmetric] mesh0_def [symmetric] c)
  moreover have "map position vs = map (\<lambda>i. coords (vertices om ! i)) [0..<nat (numberOfVertices om)]"
    by (simp add: vs_def push_vertex_loop comp_def)
  ultimately show ?thesis
    using m1 om' pos by (auto simp: mesh0_def)
qed

lemma step_keeps_mesh:
  "app_mesh (step nrm ev app) = app_mesh app \<and> app_gl (step nrm ev app) = app_gl app \<and>
   g_offModel (step nrm ev app) = g_offModel app"
  by (cases ev) (simp_all add: animate_def explode_view_def slider_def key_N_def Let_def)

lemma run_keeps_mesh:
  "app_mesh (run nrm evs app) = app_mesh app \<and> app_gl (run nrm evs app) = app_gl app \<and>
   g_offModel (run nrm evs app) = g_offModel app"
  unfolding run_def
  by (induction evs arbitrary: app) (simp_all add: step_keeps_mesh)

lemma startup_live:
  assumes "p \<noteq> 0" and "models w p = Some om"
  shows "\<exists>mesh w' om' app. Mesh_ctor junk p w = Inr (mesh, w') \<and>
           models w' = (models w)(p \<mapsto> om') \<and> same_coords om om' \<and>
           explodedModels w' = explodedModels w \<and>
           startup junk p w = Inr app \<and> app_mesh app = mesh \<and> app_gl app = setupMesh mesh \<and>
           world app = initializeExplosion p w' \<and> g_offModel app = p \<and> explodeFactor app = 0"
proof -
  from Mesh_ctor_live [OF assms, of junk] obtain mesh w' om' where
    "Mesh_ctor junk p w = Inr (mesh, w')" "offModel mesh = p"
    "models w' = (models w)(p \<mapsto> om')" "same_coords om om'" "explodedModels w' = explodedModels w"
    by blast
  then show ?thesis using assms(1)
    by (auto simp: startup_def getOffModel_def Let_def)
qed

section \<open>Properties of the main program\<close>

lemma Mesh_ctor_Inr:
  assumes "Mesh_ctor junk p w = Inr (mesh, w')"
  shows "p \<noteq> 0 \<and> (\<exists>om. models w p = Some om)"
  using assms by (auto simp: Mesh_ctor_def split: if_splits option.splits)

lemma startup_Inr:
  assumes "startup junk p w = Inr app"
  shows "p \<noteq> 0 \<and> (\<exists>om. models w p = Some om)"
proof -
  from assms obtain mesh w' where "Mesh_ctor junk p w = Inr (mesh, w')"
    by (auto simp: startup_def split: sum.splits)
  then show ?thesis by (rule Mesh_ctor_Inr)
qed

lemma same_coords_length:
  "same_coords om om' \<Longrightarrow> length (vertices om') = length (vertices om)"
  using map_eq_imp_length_eq [of coords "vertices om'" coords "vertices om"]
  by (simp add: same_coords_def)

lemma length_mvertices_ctor:
  assumes "map position vs = map f [0..<nat n]" and "n = int k"
  shows "length vs = k"
  using map_eq_imp_length_eq [OF assms(1)] assms(2) by simp

text \<open>
  Claim C5.  The index buffer the constructor builds has a length divisible by 3, whatever
  the model.  For a model as the reader returns it (\<open>off_model_ok\<close>), every index in the
  buffer is below the number of mesh vertices, and both facts hold after every sequence of
  events of the main program, for the mesh and for the uploaded element buffer.
\<close>

theorem index_buffer_stays_valid:
  "(Mesh_ctor junk p w = Inr (mesh, w') \<longrightarrow> 3 dvd length (indices mesh)) \<and>
   (p \<noteq> 0 \<and> models w p = Some om \<and> off_model_ok om \<longrightarrow>
      (\<exists>app. startup junk p w = Inr app \<and>
         (\<forall>evs. index_buffer_ok (app_mesh (run nrm evs app)) \<and>
                element_buffer (app_gl (run nrm evs app)) = indices (app_mesh (run nrm evs app)))))"
proof (intro conjI impI)
  assume c: "Mesh_ctor junk p w = Inr (mesh, w')"
  from Mesh_ctor_Inr [OF c] obtain om0 where "p \<noteq> 0" "models w p = Some om0" by blast
  from Mesh_ctor_live [OF this, of junk] c have "indices mesh = ctor_indices om0" by auto
  then show "3 dvd length (indices mesh)" by (simp add: dvd_length_ctor_indices)
next
  assume a: "p \<noteq> 0 \<and> models w p = Some om \<and> off_model_ok om"
  then have p: "p \<noteq> 0" and live: "models w p = Some om" and ok: "off_model_ok om" by simp_all
  from Mesh_ctor_live [OF p live, of junk] obtain mesh w' where
    m: "Mesh_ctor junk p w = Inr (mesh, w')" "indices mesh = ctor_indices om"
      "map position (mvertices mesh) =
         map (\<lambda>i. coords (vertices om ! i)) [0..<nat (numberOfVertices om)]"
    by blast
  from startup_live [OF p live, of junk] m(1) obtain app where
    app: "startup junk p w = Inr app" "app_mesh app = mesh" "app_gl app = setupMesh mesh"
    by auto
  from ok have "numberOfVertices om = int (length (vertices om))" by (simp add: off_model_ok_def)
  with m(3) have len: "length (mvertices mesh) = length (vertices om)"
    by (rule length_mvertices_ctor)
  have okm: "index_buffer_ok mesh"
    using set_ctor_indices [OF ok]
    by (simp add: index_buffer_ok_def m(2) dvd_length_ctor_indices len)
  have "index_buffer_ok (app_mesh (run nrm evs app)) \<and>
        element_buffer (app_gl (run nrm evs app)) = indices (app_mesh (run nrm evs app))" for evs
    using run_keeps_mesh [of nrm evs app] okm by (simp add: app setupMesh_def)
  with app(1) show "\<exists>app. startup junk p w = Inr app \<and>
         (\<forall>evs. index_buffer_ok (app_mesh (run nrm evs app)) \<and>
                element_buffer (app_gl (run nrm evs app)) = indices (app_mesh (run nrm evs app)))"
    by blast
qed

lemma ex_model_ok: "off_model_ok ex_model"
  by (simp add: off_model_ok_def ex_model_def)

lemma ex_world_live: "(1::nat) \<noteq> 0" "models ex_world 1 = Some ex_model"
  by (simp_all add: ex_world_def)

lemma ex_startup: "startup junk0 1 ex_world = Inr ex_app"
proof -
  from startup_live [OF ex_world_live, of junk0] obtain app where
    "startup junk0 1 ex_world = Inr app" by blast
  then show ?thesis by (simp add: ex_app_def)
qed

theorem index_buffer_stays_valid_witness:
  "(1::nat) \<noteq> 0 \<and> models ex_world 1 = Some ex_model \<and> off_model_ok ex_model \<and>
   startup junk0 1 ex_world = Inr ex_app \<and>
   index_buffer_ok (app_mesh (run nrm0 [Slider 1, KeyN, KeyB, Frame (1 / 2)] ex_app)) \<and>
   3 dvd length (indices (app_mesh ex_app))"
proof -
  note T = index_buffer_stays_valid [where junk = junk0 and p = 1 and w = ex_world
      and om = ex_model and nrm = nrm0 and mesh = "app_mesh ex_app" and w' = "world ex_app"]
  from T ex_world_live ex_model_ok obtain app where
    app: "startup junk0 1 ex_world = Inr app"
      "\<forall>evs. index_buffer_ok (app_mesh (run nrm0 evs app))"
    by blast
  have e: "app = ex_app" using app(1) ex_startup by simp
  from app(2) have a: "index_buffer_ok (app_mesh (run nrm0 [Slider 1, KeyN, KeyB, Frame (1 / 2)] ex_app))"
    and b: "index_buffer_ok (app_mesh (run nrm0 [] ex_app))"
    unfolding e by blast+
  from b have "3 dvd length (indices (app_mesh ex_app))"
    by (simp add: run_def index_buffer_ok_def)
  with a ex_world_live ex_model_ok ex_startup show ?thesis by simp
qed

text \<open>
  Claim C3, as the code has it.  \<open>updateExplosion\<close> and \<open>resetExplosion\<close> change the OFF model
  only.  No event of the main program changes the mesh or uploads anything
  (\<open>Mesh::updateBuffers\<close> is never called): after every sequence of events the uploaded
  vertex buffer is the vertex array built at load time, holding the positions the model
  had when it was loaded.
\<close>

theorem explosion_never_reaches_vertex_buffer:
  assumes "startup junk p w = Inr app" and "models w p = Some om"
  shows "app_mesh (run nrm evs app) = app_mesh app \<and>
         vertex_buffer (app_gl (run nrm evs app)) = mvertices (app_mesh app) \<and>
         map position (vertex_buffer (app_gl (run nrm evs app))) =
           map (\<lambda>i. coords (vertices om ! i)) [0..<nat (numberOfVertices om)]"
proof -
  from startup_Inr [OF assms(1)] have p: "p \<noteq> 0" by simp
  from startup_live [OF p assms(2), of junk] Mesh_ctor_live [OF p assms(2), of junk] assms(1)
  have "app_gl app = setupMesh (app_mesh app)"
    and "map position (mvertices (app_mesh app)) =
           map (\<lambda>i. coords (vertices om ! i)) [0..<nat (numberOfVertices om)]"
    by auto
  then show ?thesis
    using run_keeps_mesh [of nrm evs app] by (simp add: setupMesh_def)
qed

lemma snapshot_mean_capture:
  assumes "map coords vs = map coords vs'"
  shows "snapshot_mean (map capture vs) = snapshot_mean (map capture vs')"
proof -
  have x: "map (originalX \<circ> capture) us = map fst (map coords us)" for us
    by (simp add: capture_def coords_def comp_def)
  have y: "map (originalY \<circ> capture) us = map (fst \<circ> snd) (map coords us)" for us
    by (simp add: capture_def coords_def comp_def)
  have z: "map (originalZ \<circ> capture) us = map (snd \<circ> snd) (map coords us)" for us
    by (simp add: capture_def coords_def comp_def)
  have "length vs = length vs'" using assms by (rule map_eq_imp_length_eq)
  then show ?thesis
    unfolding snapshot_mean_def map_map x y z length_map assms by simp
qed

lemma baseline_capture [simp]: "baseline (capture u) = coords u"
  by (simp add: baseline_def capture_def coords_def)

lemma startup_initialized:
  assumes "startup junk p w = Inr app" and "models w p = Some om"
    and "explodedModels w p = None" and "numberOfVertices om = int (length (vertices om))"
  shows "\<exists>om'. same_coords om om' \<and> initialized p (world app) om' (map capture (vertices om'))"
proof -
  from startup_Inr [OF assms(1)] have p: "p \<noteq> 0" by simp
  from startup_live [OF p assms(2), of junk] assms(1) obtain w' om' where
    w': "models w' = (models w)(p \<mapsto> om')" "same_coords om om'"
      "explodedModels w' = explodedModels w" "world app = initializeExplosion p w'"
    by auto
  have n: "numberOfVertices om' = int (length (vertices om'))"
    using w'(2) assms(4) same_coords_length [OF w'(2)] by (simp add: same_coords_def)
  have "initializeExplosion p w' =
      w'\<lparr>explodedModels := (explodedModels w')(p \<mapsto> map capture (vertices om'))\<rparr>"
    by (rule initializeExplosion_fresh) (simp_all add: p w' assms(3) n)
  then have "initialized p (world app) om' (map capture (vertices om'))"
    by (simp add: initialized_def w' p n)
  with w'(2) show ?thesis by blast
qed

text \<open>
  Claim C3 as stated fails: after the slider was moved to 1, vertex 0 of the exploded
  model is at \<open>(-3/5, -4/5, 0)\<close> while the uploaded vertex 0 is still at \<open>(0, 0, 0)\<close>.
\<close>

theorem explosion_reaches_vertex_buffer_counterexample:
  "startup junk0 1 ex_world = Inr ex_app \<and>
   positions_of 1 (world (run nrm0 [Slider 1] ex_app)) ! 0 = (- 3 / 5, - 4 / 5, 0) \<and>
   map position (vertex_buffer (app_gl (run nrm0 [Slider 1] ex_app))) ! 0 = (0, 0, 0)"
proof -
  have n: "numberOfVertices ex_model = int (length (vertices ex_model))"
    by (simp add: ex_model_def)
  from startup_initialized [OF ex_startup ex_world_live(2) _ n] obtain om' where
    om': "same_coords ex_model om'" "initialized 1 (world ex_app) om' (map capture (vertices om'))"
    by (auto simp: ex_world_def)
  from startup_live [OF ex_world_live, of junk0] ex_startup have g: "g_offModel ex_app = 1"
    by auto
  have c: "map coords (vertices om') = map coords (vertices ex_model)"
    using om'(1) by (simp add: same_coords_def)
  have len: "length (vertices om') = 5"
    using same_coords_length [OF om'(1)] by (simp add: ex_model_def)
  have w: "world (run nrm0 [Slider 1] ex_app) = updateExplosion nrm0 1 1 (world ex_app)"
    by (simp add: run_def slider_def g Let_def)
  have "positions_of 1 (world (run nrm0 [Slider 1] ex_app)) ! 0 =
      displaced (baseline (map capture (vertices om') ! 0))
        (snapshot_mean (map capture (vertices om'))) 1"
    unfolding w by (rule positions_of_updateExplosion(2) [OF om'(2)]) (simp add: len)
  also have "baseline (map capture (vertices om') ! 0) = map coords (vertices om') ! 0"
    by (simp add: len)
  also have "snapshot_mean (map capture (vertices om')) = snapshot_mean ex_snapshot"
    unfolding ex_snapshot_def by (rule snapshot_mean_capture [OF c])
  also have "map coords (vertices om') ! 0 = (0, 0, 0)"
    unfolding c by (simp add: ex_model_def coords_def mk_vertex_def)
  also have "displaced (0, 0, 0) (snapshot_mean ex_snapshot) 1 = (- 3 / 5, - 4 / 5, 0)"
    unfolding displaced_def vlength_gt_eps ex_baselines
    by (simp add: vnormalize_def s25)
  finally have a: "positions_of 1 (world (run nrm0 [Slider 1] ex_app)) ! 0 = (- 3 / 5, - 4 / 5, 0)" .
  from startup_live [OF ex_world_live, of junk0] Mesh_ctor_live [OF ex_world_live, of junk0] ex_startup
  have "app_gl ex_app = setupMesh (app_mesh ex_app)"
    and "map position (mvertices (app_mesh ex_app)) =
           map (\<lambda>i. coords (vertices ex_model ! i)) [0..<nat (numberOfVertices ex_model)]"
    by auto
  then have "map position (vertex_buffer (app_gl (run nrm0 [Slider 1] ex_app))) ! 0 =
      map (\<lambda>i. coords (vertices ex_model ! i)) [0..<nat (numberOfVertices ex_model)] ! 0"
    using run_keeps_mesh [of nrm0 "[Slider 1]" ex_app] by (simp add: setupMesh_def)
  also have "\<dots> = (0, 0, 0)"
    by (simp add: ex_model_def coords_def mk_vertex_def)
  finally show ?thesis using a ex_startup by simp
qed

theorem explosion_never_reaches_vertex_buffer_witness:
  "startup junk0 1 ex_world = Inr ex_app \<and> models ex_world 1 = Some ex_model \<and>
   map position (vertex_buffer (app_gl (run nrm0 [Slider 1, Frame 1, KeyN] ex_app))) =
     [(0, 0, 0), (6, 0, 0), (6, 8, 0), (0, 8, 0), (3, 4, 0)]"
proof -
  have u: "map (\<lambda>i. coords (vertices ex_model ! i)) [0..<nat (numberOfVertices ex_model)] =
      [(0, 0, 0), (6, 0, 0), (6, 8, 0), (0, 8, 0), (3, 4, 0)]"
    by (simp add: ex_model_def coords_def mk_vertex_def upt_conv_Cons)
  note T = explosion_never_reaches_vertex_buffer [OF ex_startup ex_world_live(2),
      where nrm = nrm0 and evs = "[Slider 1, Frame 1, KeyN]"]
  have "map position (vertex_buffer (app_gl (run nrm0 [Slider 1, Frame 1, KeyN] ex_app))) =
     [(0, 0, 0), (6, 0, 0), (6, 8, 0), (0, 8, 0), (3, 4, 0)]"
    using T [THEN conjunct2, THEN conjunct2] unfolding u .
  with ex_startup ex_world_live(2) show ?thesis by blast
qed

section \<open>Properties of the normal pass\<close>

lemma Mesh_ctor_steps:
  assumes "p \<noteq> 0" and "models w p = Some om"
  shows "Mesh_ctor junk p w =
     Inr (calculateCenterAndRadius
            (calculateFaceCenters (fst (calculateNormals (ctor_mesh junk p om) w)))
            (snd (calculateNormals (ctor_mesh junk p om) w)),
          snd (calculateNormals (ctor_mesh junk p om) w))"
proof -
  have idx: "for_loop 0 (numberOfPolygons om) (\<lambda>i. triangulate (polygons om ! i)) [] =
      ctor_indices om"
    by (simp add: for_loop_fold fold_triangulate ctor_indices_def)
  have vs: "for_loop 0 (numberOfVertices om) (push_vertex junk om) [] = ctor_vertices junk om"
    by (simp add: push_vertex_loop ctor_vertices_def)
  show ?thesis
    using assms
    by (simp add: Mesh_ctor_def Let_def idx vs ctor_mesh_def [symmetric] split: prod.splits)
qed

lemma Mesh_ctor_normals:
  assumes "p \<noteq> 0" and "models w p = Some om" and "Mesh_ctor junk p w = Inr (mesh, w')"
  shows "map normal (mvertices mesh) =
     map (normal \<circ> normalize_vertex)
       (fst (accumulate_normals (ctor_indices om) (ctor_vertices junk om, om)))"
    and "indices mesh = ctor_indices om"
proof -
  have live: "models w (offModel (ctor_mesh junk p om)) = Some om"
    by (simp add: ctor_mesh_def assms)
  from Mesh_ctor_steps [OF assms(1,2), of junk] assms(3)
  have m: "mesh = calculateCenterAndRadius
            (calculateFaceCenters (fst (calculateNormals (ctor_mesh junk p om) w))) w'"
    by simp
  show "map normal (mvertices mesh) =
     map (normal \<circ> normalize_vertex)
       (fst (accumulate_normals (ctor_indices om) (ctor_vertices junk om, om)))"
    unfolding m by (simp add: calculateNormals_live(1) [OF live]) (simp add: ctor_mesh_def)
  show "indices mesh = ctor_indices om"
    unfolding m by (simp add: calculateNormals_live(2) [OF live]) (simp add: ctor_mesh_def)
qed

lemma cross_smul: "cross (smul u k) (smul v k) = smul (cross u v) (k * k)"
  by (cases u; cases v) (simp add: algebra_simps)

lemma smul_smul: "smul (smul u a) b = smul u (a * b)"
  by (cases u) (simp add: algebra_simps)

lemma vnormalize_smul:
  assumes "0 < c"
  shows "vnormalize (smul u c) = vnormalize u"
proof -
  have "sqrt (c * c * dot u u) = c * sqrt (dot u u)"
    using assms by (simp add: real_sqrt_mult)
  then have "c * (1 / sqrt (dot (smul u c) (smul u c))) = 1 / sqrt (dot u u)"
    using assms by (simp add: dot_smul)
  then show ?thesis
    by (simp add: vnormalize_def smul_smul)
qed

lemma dot_zero_iff: "dot u u = 0 \<longleftrightarrow> u = zero3"
proof (cases u)
  case (fields a b c)
  have "a * a + b * b + c * c = 0 \<longleftrightarrow> a * a + b * b = 0 \<and> c * c = 0"
    by (rule add_nonneg_eq_0_iff) simp_all
  then have "a * a + b * b + c * c = 0 \<longleftrightarrow> a = 0 \<and> b = 0 \<and> c = 0"
    by (simp add: sum_squares_eq_zero_iff)
  then show ?thesis by (simp add: fields zero3_def)
qed

lemma add_face_normal_vs_nth:
  assumes "a < length vs" "b < length vs" "c < length vs" "distinct [a, b, c]"
  shows "normal (add_face_normal_vs a b c vs ! a) = vadd (normal (vs ! a)) (face_normal vs a b c)"
    and "normal (add_face_normal_vs a b c vs ! b) = vadd (normal (vs ! b)) (face_normal vs a b c)"
    and "normal (add_face_normal_vs a b c vs ! c) = vadd (normal (vs ! c)) (face_normal vs a b c)"
  using assms by (simp_all add: add_face_normal_vs_def add_to_normal_def nth_list_update)

text \<open>
  Claim C2, as the code has it.  For a triangle \<open>(a, b, c)\<close> of three different vertices,
  the loop body adds the normalized cross product of the edges \<open>b - a\<close> and \<open>c - a\<close> to the
  normals of \<open>a\<close>, \<open>b\<close> and \<open>c\<close>.  Unless the cross product is zero the vector added has
  length 1, and it stays the same when both edges are scaled by a positive factor: a larger
  triangle weighs no more than a smaller one.
\<close>

theorem face_contribution_is_normalized:
  assumes "a < length vs" "b < length vs" "c < length vs" "distinct [a, b, c]"
  shows "let edge1 = vsub (position (vs ! b)) (position (vs ! a));
             edge2 = vsub (position (vs ! c)) (position (vs ! a));
             faceNormal = vnormalize (cross edge1 edge2);
             vs' = fst (add_face_normal a b c (vs, om))
         in normal (vs' ! a) = vadd (normal (vs ! a)) faceNormal \<and>
            normal (vs' ! b) = vadd (normal (vs ! b)) faceNormal \<and>
            normal (vs' ! c) = vadd (normal (vs ! c)) faceNormal \<and>
            (cross edge1 edge2 \<noteq> zero3 \<longrightarrow> vlength faceNormal = 1) \<and>
            (\<forall>k > 0. vnormalize (cross (smul edge1 k) (smul edge2 k)) = faceNormal)"
proof -
  have unit: "vlength (vnormalize n) = 1" if "n \<noteq> zero3" for n
    using that by (simp add: vlength_vnormalize dot_zero_iff)
  have scale: "vnormalize (cross (smul e1 k) (smul e2 k)) = vnormalize (cross e1 e2)"
    if "0 < k" for e1 e2 k
    using that by (simp add: cross_smul vnormalize_smul)
  show ?thesis
    using add_face_normal_vs_nth [OF assms]
    by (simp add: Let_def fst_add_face_normal face_normal_def unit scale)
qed

lemma s16: "sqrt 16 = 4" using sqrt_sq [of 4] by simp

theorem face_contribution_is_normalized_witness:
  "(0::nat) < length big_triangle \<and> (1::nat) < length big_triangle \<and>
   (2::nat) < length big_triangle \<and> distinct [0, 1, 2::nat] \<and>
   map normal (fst (add_face_normal 0 1 2 (big_triangle, ex_model))) =
     [(0, 0, 1), (0, 0, 1), (0, 0, 1)]"
proof -
  have l: "length big_triangle = 3" by (simp add: big_triangle_def)
  have h: "(0::nat) < length big_triangle" "(1::nat) < length big_triangle"
    "(2::nat) < length big_triangle" "distinct [0, 1, 2::nat]"
    by (simp_all add: l)
  have f: "vnormalize (cross (vsub (position (big_triangle ! 1)) (position (big_triangle ! 0)))
      (vsub (position (big_triangle ! 2)) (position (big_triangle ! 0)))) = (0, 0, 1)"
    by (simp add: big_triangle_def mk_mesh_vertex_def vnormalize_def s16)
  have z: "normal (big_triangle ! 0) = (0, 0, 0)" "normal (big_triangle ! 1) = (0, 0, 0)"
    "normal (big_triangle ! 2) = (0, 0, 0)"
    by (simp_all add: big_triangle_def mk_mesh_vertex_def zero3_def)
  have len: "length (fst (add_face_normal 0 1 2 (big_triangle, ex_model))) = 3"
    by (simp add: fst_add_face_normal l)
  from face_contribution_is_normalized [OF h, of ex_model]
  have "normal (fst (add_face_normal 0 1 2 (big_triangle, ex_model)) ! 0) = (0, 0, 1)"
    "normal (fst (add_face_normal 0 1 2 (big_triangle, ex_model)) ! 1) = (0, 0, 1)"
    "normal (fst (add_face_normal 0 1 2 (big_triangle, ex_model)) ! 2) = (0, 0, 1)"
    unfolding Let_def f z by simp_all
  then have "map normal (fst (add_face_normal 0 1 2 (big_triangle, ex_model))) =
     [(0, 0, 1), (0, 0, 1), (0, 0, 1)]"
    using len by (intro nth_equalityI) (auto simp: less_Suc_eq numeral_3_eq_3 numeral_2_eq_2)
  with h show ?thesis by simp
qed

text \<open>
  Claim C2 as stated fails: for the triangle \<open>(0,0,0), (2,0,0), (0,2,0)\<close> the cross product
  of the edges is \<open>(0, 0, 4)\<close>, and the first two passes of \<open>calculateNormals\<close> leave the
  normal \<open>(0, 0, 1)\<close> at each of its vertices.
\<close>

theorem face_contribution_unnormalized_counterexample:
  "map position big_triangle = [(0, 0, 0), (2, 0, 0), (0, 2, 0)] \<and>
   map normal (fst (accumulate_normals [0, 1, 2] (big_triangle, ex_model))) =
     [(0, 0, 1), (0, 0, 1), (0, 0, 1)] \<and>
   cross (vsub (2, 0, 0) (0, 0, 0)) (vsub (0, 2, 0) (0, 0, 0)) = (0, 0, 4)"
proof -
  have d: "3 dvd length [0, 1, 2::nat]" by (simp add: numeral_3_eq_3)
  show ?thesis
    unfolding fst_accumulate_normals [OF d]
    by (simp add: big_triangle_def mk_mesh_vertex_def zero_normals_def add_face_normal_vs_def
        face_normal_def add_to_normal_def vnormalize_def s16 zero3_def)
qed

lemma fold_inv_set:
  assumes "\<And>x s. x \<in> set xs \<Longrightarrow> P s \<Longrightarrow> P (body x s)" and "P s"
  shows "P (fold body xs s)"
  using assms by (induction xs arbitrary: s) simp_all

lemma set_triples:
  "(a, b, c) \<in> set (triples idx) \<Longrightarrow> a \<in> set idx \<and> b \<in> set idx \<and> c \<in> set idx"
  by (induction idx rule: triples.induct) auto

lemma normal_add_to_normal_other:
  "i \<noteq> j \<Longrightarrow> normal (add_to_normal j f vs ! i) = normal (vs ! i)"
  by (simp add: add_to_normal_def)

lemma normal_add_face_normal_vs_other:
  "i \<noteq> a \<Longrightarrow> i \<noteq> b \<Longrightarrow> i \<noteq> c \<Longrightarrow>
   normal (add_face_normal_vs a b c vs ! i) = normal (vs ! i)"
  by (simp add: add_face_normal_vs_def normal_add_to_normal_other)

lemma accumulate_normals_unreferenced:
  assumes "3 dvd length idx" and "i \<notin> set idx" and "i < length vs"
  shows "normal (fst (accumulate_normals idx (vs, om)) ! i) = zero3"
proof -
  let ?P = "\<lambda>us :: MeshVertex list. normal (us ! i) = zero3"
  have "?P (fold (\<lambda>(a, b, c). add_face_normal_vs a b c) (triples idx) (zero_normals vs))"
  proof (rule fold_inv_set [where P = ?P])
    show "?P (zero_normals vs)" using assms(3) by (simp add: zero_normals_def)
  next
    fix x us
    assume x: "x \<in> set (triples idx)" and us: "?P us"
    obtain a b c where abc: "x = (a, b, c)" by (cases x)
    with x set_triples [of a b c idx] assms(2) have "i \<noteq> a" "i \<noteq> b" "i \<noteq> c" by auto
    then show "?P ((case x of (a, b, c) \<Rightarrow> add_face_normal_vs a b c) us)"
      using us by (simp add: abc normal_add_face_normal_vs_other)
  qed
  then show ?thesis by (simp add: fst_accumulate_normals [OF assms(1)])
qed

text \<open>
  Claim C6, as the code has it.  After \<open>calculateNormals\<close>, a vertex whose accumulated normal
  is longer than \<open>0.0001\<close> has that normal normalized, of length 1; any other vertex keeps
  its accumulated normal as it is, which is the zero vector for a vertex no triangle
  refers to, and need not be zero otherwise.
\<close>

theorem calculateNormals_unit_or_untouched:
  assumes "models w (offModel mesh) = Some om" and "3 dvd length (indices mesh)"
    and "i < length (mvertices mesh)"
  shows "let acc = normal (fst (accumulate_normals (indices mesh) (mvertices mesh, om)) ! i);
             n = normal (mvertices (fst (calculateNormals mesh w)) ! i)
         in (vlength acc > 1 / 10000 \<longrightarrow> n = vnormalize acc \<and> vlength n = 1) \<and>
            (vlength acc \<le> 1 / 10000 \<longrightarrow> n = acc) \<and>
            (i \<notin> set (indices mesh) \<longrightarrow> n = zero3)"
proof -
  let ?A = "fst (accumulate_normals (indices mesh) (mvertices mesh, om))"
  have len: "i < length ?A"
    using assms(3) by (simp add: accumulate_normals_simps(1) [OF assms(2)])
  have n: "normal (mvertices (fst (calculateNormals mesh w)) ! i) =
      normal (normalize_vertex (?A ! i))"
    using len by (simp add: calculateNormals_live(1) [OF assms(1)])
  have unit: "vlength (vnormalize u) = 1" if "vlength u > 1 / 10000" for u
  proof -
    from that have "dot u u \<noteq> 0" by (auto simp: vlength_def)
    then show ?thesis by (rule vlength_vnormalize)
  qed
  have z: "vlength zero3 = 0" by (simp add: vlength_def zero3_def)
  have unref: "normal (?A ! i) = zero3" if "i \<notin> set (indices mesh)"
    using that assms by (simp add: accumulate_normals_unreferenced)
  show ?thesis
    unfolding Let_def n
    by (auto simp: normalize_vertex_def unit unref z)
qed

lemma sbig: "sqrt 810000001800000001 = 900000001"
  using sqrt_sq [of 900000001] by simp

lemma sliver_live: "(1::nat) \<noteq> 0" "models sliver_world 1 = Some sliver_model"
  by (simp_all add: sliver_world_def)

lemma sliver_ctor: "Mesh_ctor junk0 1 sliver_world = Inr sliver_loaded"
proof -
  have "\<exists>r. Mesh_ctor junk0 1 sliver_world = Inr r"
    using Mesh_ctor_steps [OF sliver_live, of junk0] by blast
  then show ?thesis by (auto simp: sliver_loaded_def)
qed

lemma sliver_indices: "ctor_indices sliver_model = [0, 1, 2, 0, 2, 3]"
  by (simp add: ctor_indices_def triangulate_concat sliver_model_def upt_conv_Cons)

lemma sliver_vertices:
  "ctor_vertices junk0 sliver_model =
     map mk_mesh_vertex [(0, 0, 0), (1, 0, 0), (0, 1, 0), (899999999, 0, 60000)]"
  by (simp add: ctor_vertices_def sliver_model_def upt_conv_Cons mk_mesh_vertex_def
      mk_vertex_def coords_def junk0_def)

lemma sliver_accumulated:
  "map normal (fst (accumulate_normals [0, 1, 2, 0, 2, 3]
      (map mk_mesh_vertex [(0, 0, 0), (1, 0, 0), (0, 1, 0), (899999999, 0, 60000)], sliver_model))) =
   [(60000 / 900000001, 0, 2 / 900000001), (0, 0, 1),
    (60000 / 900000001, 0, 2 / 900000001), (60000 / 900000001, 0, - 899999999 / 900000001)]"
proof -
  have "length [0, 1, 2, 0, 2, 3::nat] = 3 * 2" by simp
  then have d: "3 dvd length [0, 1, 2, 0, 2, 3::nat]" by (simp only: dvd_triv_left)
  show ?thesis
    unfolding fst_accumulate_normals [OF d]
    by (simp add: mk_mesh_vertex_def zero_normals_def add_face_normal_vs_def
        face_normal_def add_to_normal_def vnormalize_def sbig zero3_def)
qed

lemma vlength_lt_eps: "vlength u < 1 / 10000 \<longleftrightarrow> dot u u < 1 / 100000000"
proof -
  have "sqrt (dot u u) < sqrt (1 / 100000000) \<longleftrightarrow> dot u u < 1 / 100000000"
    by (rule real_sqrt_less_iff)
  moreover have "sqrt (1 / 100000000) = 1 / 10000"
    using sqrt_sq [of "1 / 10000"] by simp
  ultimately show ?thesis by (simp add: vlength_def)
qed

lemma sliver_mesh_facts:
  "models sliver_world (offModel (ctor_mesh junk0 1 sliver_model)) = Some sliver_model"
  "3 dvd length (indices (ctor_mesh junk0 1 sliver_model))"
  "1 < length (mvertices (ctor_mesh junk0 1 sliver_model))"
  "indices (ctor_mesh junk0 1 sliver_model) = [0, 1, 2, 0, 2, 3]"
  "mvertices (ctor_mesh junk0 1 sliver_model) =
     map mk_mesh_vertex [(0, 0, 0), (1, 0, 0), (0, 1, 0), (899999999, 0, 60000)]"
proof -
  show "models sliver_world (offModel (ctor_mesh junk0 1 sliver_model)) = Some sliver_model"
    using sliver_live by (simp add: ctor_mesh_def)
  show "3 dvd length (indices (ctor_mesh junk0 1 sliver_model))"
    by (simp add: ctor_mesh_def dvd_length_ctor_indices)
  show "1 < length (mvertices (ctor_mesh junk0 1 sliver_model))"
    by (simp add: ctor_mesh_def sliver_vertices)
  show "indices (ctor_mesh junk0 1 sliver_model) = [0, 1, 2, 0, 2, 3]"
    by (simp add: ctor_mesh_def sliver_indices)
  show "mvertices (ctor_mesh junk0 1 sliver_model) =
     map mk_mesh_vertex [(0, 0, 0), (1, 0, 0), (0, 1, 0), (899999999, 0, 60000)]"
    by (simp add: ctor_mesh_def sliver_vertices)
qed

text \<open>Vertex 1 of \<open>sliver_model\<close> lies in one triangle only, with the normal \<open>(0, 0, 1)\<close>.\<close>

theorem calculateNormals_unit_or_untouched_witness:
  "models sliver_world (offModel (ctor_mesh junk0 1 sliver_model)) = Some sliver_model \<and>
   3 dvd length (indices (ctor_mesh junk0 1 sliver_model)) \<and>
   1 < length (mvertices (ctor_mesh junk0 1 sliver_model)) \<and>
   normal (mvertices (fst (calculateNormals (ctor_mesh junk0 1 sliver_model) sliver_world)) ! 1) =
     (0, 0, 1)"
proof -
  let ?A = "fst (accumulate_normals [0, 1, 2, 0, 2, 3]
      (map mk_mesh_vertex [(0, 0, 0), (1, 0, 0), (0, 1, 0), (899999999, 0, 60000)], sliver_model))"
  have "length (map normal ?A) = 4" unfolding sliver_accumulated by simp
  then have "map normal ?A ! 1 = normal (?A ! 1)" by simp
  then have acc: "normal (?A ! 1) = (0, 0, 1)" unfolding sliver_accumulated by simp
  have far: "vlength (0, 0, 1) > 1 / 10000" unfolding vlength_gt_eps by simp
  have dir: "vnormalize (0, 0, 1) = (0, 0, 1)" by (simp add: vnormalize_def)
  note T = calculateNormals_unit_or_untouched [OF sliver_mesh_facts(1,2,3)]
  have "normal (mvertices (fst (calculateNormals (ctor_mesh junk0 1 sliver_model) sliver_world)) ! 1) =
     (0, 0, 1)"
    using T far unfolding Let_def sliver_mesh_facts(4,5) acc by (simp add: dir)
  with sliver_mesh_facts(1,2,3) show ?thesis by blast
qed

text \<open>
  Claim C6 as stated fails: in \<open>sliver_model\<close> the two triangles at vertex 0 have nearly
  opposite normals; their sum is shorter than \<open>0.0001\<close> but not zero, and it is the normal
  the loaded mesh holds for vertex 0: neither of length 1 nor the zero vector.
\<close>

theorem calculateNormals_small_normal_counterexample:
  "Mesh_ctor junk0 1 sliver_world = Inr sliver_loaded \<and>
   indices (fst sliver_loaded) = [0, 1, 2, 0, 2, 3] \<and>
   map position (mvertices (fst sliver_loaded)) =
     [(0, 0, 0), (1, 0, 0), (0, 1, 0), (899999999, 0, 60000)] \<and>
   map normal (fst (accumulate_normals (indices (fst sliver_loaded))
      (ctor_vertices junk0 sliver_model, sliver_model))) ! 0 =
     (60000 / 900000001, 0, 2 / 900000001) \<and>
   vlength (60000 / 900000001, 0, 2 / 900000001) < 1 / 10000 \<and>
   map normal (mvertices (fst sliver_loaded)) ! 0 = (60000 / 900000001, 0, 2 / 900000001) \<and>
   (60000 / 900000001, 0, 2 / 900000001) \<noteq> zero3 \<and>
   vlength (60000 / 900000001, 0, 2 / 900000001) \<noteq> 1"
proof -
  define A where "A = fst (accumulate_normals [0, 1, 2, 0, 2, 3]
      (map mk_mesh_vertex [(0, 0, 0), (1, 0, 0), (0, 1, 0), (899999999, 0, 60000)], sliver_model))"
  have c: "Mesh_ctor junk0 1 sliver_world = Inr (fst sliver_loaded, snd sliver_loaded)"
    using sliver_ctor by simp
  note N = Mesh_ctor_normals [OF sliver_live c]
  have idx: "indices (fst sliver_loaded) = [0, 1, 2, 0, 2, 3]"
    using N(2) by (simp add: sliver_indices)
  have small: "vlength (60000 / 900000001, 0, 2 / 900000001) < 1 / 10000"
    unfolding vlength_lt_eps by simp
  have mA: "map normal A = [(60000 / 900000001, 0, 2 / 900000001), (0, 0, 1),
      (60000 / 900000001, 0, 2 / 900000001), (60000 / 900000001, 0, - 899999999 / 900000001)]"
    unfolding A_def by (rule sliver_accumulated)
  have len: "length A = 4"
    using arg_cong [OF mA, of length] by simp
  have a0: "normal (A ! 0) = (60000 / 900000001, 0, 2 / 900000001)"
    using arg_cong [OF mA, of "\<lambda>xs. xs ! 0"] len by simp
  have "map normal (mvertices (fst sliver_loaded)) = map (normal \<circ> normalize_vertex) A"
    unfolding A_def using N(1) by (simp only: sliver_indices sliver_vertices)
  then have "map normal (mvertices (fst sliver_loaded)) ! 0 = normal (normalize_vertex (A ! 0))"
    using len by simp
  also have "\<dots> = (60000 / 900000001, 0, 2 / 900000001)"
    using small by (simp add: normalize_vertex_def a0)
  finally have n0: "map normal (mvertices (fst sliver_loaded)) ! 0 =
      (60000 / 900000001, 0, 2 / 900000001)" .
  have acc0: "map normal (fst (accumulate_normals (indices (fst sliver_loaded))
      (ctor_vertices junk0 sliver_model, sliver_model))) ! 0 =
     (60000 / 900000001, 0, 2 / 900000001)"
    unfolding idx sliver_vertices sliver_accumulated by simp
  have pos: "map position (mvertices (fst sliver_loaded)) =
     [(0, 0, 0), (1, 0, 0), (0, 1, 0), (899999999, 0, 60000)]"
  proof -
    from Mesh_ctor_live [OF sliver_live, of junk0] obtain mesh w' where
      m: "Mesh_ctor junk0 1 sliver_world = Inr (mesh, w')"
        "map position (mvertices mesh) =
           map (\<lambda>i. coords (vertices sliver_model ! i)) [0..<nat (numberOfVertices sliver_model)]"
      by blast
    from m(1) c have "mesh = fst sliver_loaded" by (auto simp: prod_eq_iff)
    moreover have "map (\<lambda>i. coords (vertices sliver_model ! i))
        [0..<nat (numberOfVertices sliver_model)] =
        [(0, 0, 0), (1, 0, 0), (0, 1, 0), (899999999, 0, 60000)]"
      by (simp add: sliver_model_def coords_def mk_vertex_def upt_conv_Cons)
    ultimately show ?thesis using m(2) by simp
  qed
  have nz: "(60000 / 900000001, 0, 2 / 900000001) \<noteq> zero3" by (simp add: zero3_def)
  have nu: "vlength (60000 / 900000001, 0, 2 / 900000001) \<noteq> 1" using small by simp
  from sliver_ctor idx pos acc0 small n0 nz nu show ?thesis by blast
qed

section \<open>Properties of the face centres\<close>

lemma last_face_snoc:
  "last_face k (ts @ [(a, b, c)]) =
     (if k = a \<or> k = b \<or> k = c then Some (a, b, c) else last_face k ts)"
  by (simp add: last_face_def)

lemma faceCenter_set_face_center:
  assumes "a < length vs" "b < length vs" "c < length vs" "k < length vs"
  shows "faceCenter (set_face_center a b c vs ! k) =
     (if k = a \<or> k = b \<or> k = c then centroid vs (a, b, c) else faceCenter (vs ! k))"
  using assms by (simp add: set_face_center_def centroid_def Let_def nth_list_update)

lemma centroid_cong:
  assumes "map position vs' = map position vs" "a < length vs" "b < length vs" "c < length vs"
  shows "centroid vs' (a, b, c) = centroid vs (a, b, c)"
proof -
  have l: "length vs' = length vs" using assms(1) by (rule map_eq_imp_length_eq)
  have "position (vs' ! j) = position (vs ! j)" if "j < length vs" for j
    using arg_cong [OF assms(1), of "\<lambda>xs. xs ! j"] that l by simp
  then show ?thesis using assms by (simp add: centroid_def)
qed

lemma fold_set_face_center:
  assumes "\<forall>(a, b, c) \<in> set ts. a < length vs \<and> b < length vs \<and> c < length vs"
    and "k < length vs"
  shows "length (fold (\<lambda>(a, b, c). set_face_center a b c) ts vs) = length vs \<and>
         map position (fold (\<lambda>(a, b, c). set_face_center a b c) ts vs) = map position vs \<and>
         faceCenter (fold (\<lambda>(a, b, c). set_face_center a b c) ts vs ! k) =
           (case last_face k ts of None \<Rightarrow> faceCenter (vs ! k) | Some t \<Rightarrow> centroid vs t)"
  using assms(1)
proof (induction ts rule: rev_induct)
  case Nil
  show ?case by (simp add: last_face_def)
next
  case (snoc t ts)
  obtain a b c where t: "t = (a, b, c)" by (cases t)
  let ?vs = "fold (\<lambda>(a, b, c). set_face_center a b c) ts vs"
  from snoc.prems have abc: "a < length vs" "b < length vs" "c < length vs"
    and rest: "\<forall>(a, b, c) \<in> set ts. a < length vs \<and> b < length vs \<and> c < length vs"
    by (auto simp: t)
  from snoc.IH [OF rest] have IH: "length ?vs = length vs" "map position ?vs = map position vs"
    "faceCenter (?vs ! k) =
       (case last_face k ts of None \<Rightarrow> faceCenter (vs ! k) | Some t \<Rightarrow> centroid vs t)"
    by simp_all
  have f: "fold (\<lambda>(a, b, c). set_face_center a b c) (ts @ [t]) vs = set_face_center a b c ?vs"
    by (simp add: t)
  have "faceCenter (set_face_center a b c ?vs ! k) =
     (if k = a \<or> k = b \<or> k = c then centroid ?vs (a, b, c) else faceCenter (?vs ! k))"
    by (rule faceCenter_set_face_center) (simp_all add: IH abc assms(2))
  also have "centroid ?vs (a, b, c) = centroid vs (a, b, c)"
    by (rule centroid_cong [OF IH(2) abc])
  finally show ?case
    unfolding f by (simp add: IH t last_face_snoc)
qed

lemma faceCenter_is_last_incident_centroid_aux:
  assumes "3 dvd length (indices mesh)"
    and "\<forall>j \<in> set (indices mesh). j < length (mvertices mesh)"
    and "k < length (mvertices mesh)"
  shows "length (mvertices (calculateFaceCenters mesh)) = length (mvertices mesh) \<and>
         faceCenter (mvertices (calculateFaceCenters mesh) ! k) =
           (case last_face k (triples (indices mesh)) of
              None \<Rightarrow> faceCenter (mvertices mesh ! k)
            | Some t \<Rightarrow> centroid (mvertices mesh) t)"
proof -
  have "\<forall>(a, b, c) \<in> set (triples (indices mesh)).
      a < length (mvertices mesh) \<and> b < length (mvertices mesh) \<and> c < length (mvertices mesh)"
    using assms(2) set_triples [of _ _ _ "indices mesh"] by blast
  from fold_set_face_center [OF this assms(3)] show ?thesis
    by (simp add: calculateFaceCenters_def tri_loop_fold [OF assms(1)])
qed

text \<open>
  Claim C9, as the code has it.  Every mesh vertex holds one face centre.
  \<open>calculateFaceCenters\<close> overwrites it for each triangle the vertex lies in, so what remains
  is the centroid of the last triangle, in index-buffer order, that refers to the vertex;
  a vertex no triangle refers to keeps the value it had.  Nothing is averaged.
\<close>

theorem faceCenter_is_last_incident_centroid:
  assumes "3 dvd length (indices mesh)"
    and "\<forall>j \<in> set (indices mesh). j < length (mvertices mesh)"
    and "k < length (mvertices mesh)"
  shows "length (mvertices (calculateFaceCenters mesh)) = length (mvertices mesh) \<and>
         faceCenter (mvertices (calculateFaceCenters mesh) ! k) =
           (case last_face k (triples (indices mesh)) of
              None \<Rightarrow> faceCenter (mvertices mesh ! k)
            | Some t \<Rightarrow> centroid (mvertices mesh) t)"
  using assms by (rule faceCenter_is_last_incident_centroid_aux)

lemma ex_indices: "ctor_indices ex_model = [0, 1, 2, 0, 2, 3]"
  by (simp add: ctor_indices_def triangulate_concat ex_model_def upt_conv_Cons)

lemma ex_vertices:
  "ctor_vertices junk0 ex_model =
     map mk_mesh_vertex [(0, 0, 0), (6, 0, 0), (6, 8, 0), (0, 8, 0), (3, 4, 0)]"
  by (simp add: ctor_vertices_def ex_model_def upt_conv_Cons mk_mesh_vertex_def
      mk_vertex_def coords_def junk0_def)

lemma ex_triples: "triples [0, 1, 2, 0, 2, 3] = [(0, 1, 2), (0, 2, 3)]"
  by simp

lemma ex_loaded_mesh:
  "\<exists>mesh1. map position (mvertices mesh1) =
       [(0, 0, 0), (6, 0, 0), (6, 8, 0), (0, 8, 0), (3, 4, 0)] \<and>
     indices mesh1 = [0, 1, 2, 0, 2, 3] \<and>
     mvertices (app_mesh ex_app) = mvertices (calculateFaceCenters mesh1) \<and>
     indices (app_mesh ex_app) = [0, 1, 2, 0, 2, 3]"
proof -
  define mesh1 where "mesh1 = fst (calculateNormals (ctor_mesh junk0 1 ex_model) ex_world)"
  define w1 where "w1 = snd (calculateNormals (ctor_mesh junk0 1 ex_model) ex_world)"
  have live: "models ex_world (offModel (ctor_mesh junk0 1 ex_model)) = Some ex_model"
    using ex_world_live by (simp add: ctor_mesh_def)
  have d: "3 dvd length (indices (ctor_mesh junk0 1 ex_model))"
    by (simp add: ctor_mesh_def dvd_length_ctor_indices)
  have c: "Mesh_ctor junk0 1 ex_world =
      Inr (calculateCenterAndRadius (calculateFaceCenters mesh1) w1, w1)"
    unfolding mesh1_def w1_def by (rule Mesh_ctor_steps [OF ex_world_live])
  from startup_live [OF ex_world_live, of junk0] obtain mesh w' app where
    "Mesh_ctor junk0 1 ex_world = Inr (mesh, w')" "startup junk0 1 ex_world = Inr app"
    "app_mesh app = mesh"
    by blast
  with c ex_startup have m: "app_mesh ex_app = calculateCenterAndRadius (calculateFaceCenters mesh1) w1"
    by auto
  have "map position (mvertices mesh1) =
      map position (fst (accumulate_normals (indices (ctor_mesh junk0 1 ex_model))
        (mvertices (ctor_mesh junk0 1 ex_model), ex_model)))"
    unfolding mesh1_def calculateNormals_live(1) [OF live] by simp
  also have "\<dots> = map position (mvertices (ctor_mesh junk0 1 ex_model))"
    by (rule accumulate_normals_simps(2) [OF d])
  also have "\<dots> = [(0, 0, 0), (6, 0, 0), (6, 8, 0), (0, 8, 0), (3, 4, 0)]"
    by (simp add: ctor_mesh_def ex_vertices mk_mesh_vertex_def)
  finally have pos: "map position (mvertices mesh1) =
      [(0, 0, 0), (6, 0, 0), (6, 8, 0), (0, 8, 0), (3, 4, 0)]" .
  have idx: "indices mesh1 = [0, 1, 2, 0, 2, 3]"
    unfolding mesh1_def calculateNormals_live(2) [OF live] by (simp add: ctor_mesh_def ex_indices)
  show ?thesis
    using pos idx by (intro exI [of _ mesh1]) (simp add: m)
qed

lemma centroid_positions:
  assumes "map position vs = ps" "a < length ps" "b < length ps" "c < length ps"
  shows "centroid vs (a, b, c) = sdiv (vadd (vadd (ps ! a) (ps ! b)) (ps ! c)) 3"
proof -
  have l: "length vs = length ps" using arg_cong [OF assms(1), of length] by simp
  have "position (vs ! j) = ps ! j" if "j < length ps" for j
    using arg_cong [OF assms(1), of "\<lambda>xs. xs ! j"] that l by simp
  then show ?thesis using assms(2-4) by (simp add: centroid_def)
qed

theorem faceCenter_is_last_incident_centroid_witness:
  "3 dvd length (indices (ctor_mesh junk0 1 ex_model)) \<and>
   0 < length (mvertices (ctor_mesh junk0 1 ex_model)) \<and>
   faceCenter (mvertices (calculateFaceCenters (ctor_mesh junk0 1 ex_model)) ! 0) = (2, 16 / 3, 0) \<and>
   faceCenter (mvertices (calculateFaceCenters (ctor_mesh junk0 1 ex_model)) ! 4) = (0, 0, 0)"
proof -
  let ?m = "ctor_mesh junk0 1 ex_model"
  have i: "indices ?m = [0, 1, 2, 0, 2, 3]" by (simp add: ctor_mesh_def ex_indices)
  have v: "mvertices ?m = map mk_mesh_vertex [(0, 0, 0), (6, 0, 0), (6, 8, 0), (0, 8, 0), (3, 4, 0)]"
    by (simp add: ctor_mesh_def ex_vertices)
  have h1: "3 dvd length (indices ?m)" by (simp add: ctor_mesh_def dvd_length_ctor_indices)
  have h2: "\<forall>j \<in> set (indices ?m). j < length (mvertices ?m)" unfolding i v by simp
  have k0: "0 < length (mvertices ?m)" and k4: "4 < length (mvertices ?m)" unfolding v by simp_all
  have l0: "last_face 0 (triples (indices ?m)) = Some (0, 2, 3)"
    and l4: "last_face 4 (triples (indices ?m)) = None"
    unfolding i by (simp_all add: last_face_def)
  have c: "centroid (mvertices ?m) (0, 2, 3) = (2, 16 / 3, 0)"
    unfolding v by (simp add: centroid_def mk_mesh_vertex_def)
  have j: "faceCenter (mvertices ?m ! 4) = (0, 0, 0)"
    unfolding v by (simp add: mk_mesh_vertex_def zero3_def)
  have "faceCenter (mvertices (calculateFaceCenters ?m) ! 0) = centroid (mvertices ?m) (0, 2, 3)"
    using faceCenter_is_last_incident_centroid [OF h1 h2 k0, THEN conjunct2]
    by (simp only: l0 option.case)
  then have a: "faceCenter (mvertices (calculateFaceCenters ?m) ! 0) = (2, 16 / 3, 0)"
    by (simp only: c)
  have "faceCenter (mvertices (calculateFaceCenters ?m) ! 4) = faceCenter (mvertices ?m ! 4)"
    using faceCenter_is_last_incident_centroid [OF h1 h2 k4, THEN conjunct2]
    by (simp only: l4 option.case)
  then have b: "faceCenter (mvertices (calculateFaceCenters ?m) ! 4) = (0, 0, 0)"
    by (simp only: j)
  from h1 k0 a b show ?thesis by blast
qed

text \<open>
  Claim C9 as stated fails: vertex 0 of the loaded \<open>ex_model\<close> lies in the triangles
  \<open>(0, 1, 2)\<close> and \<open>(0, 2, 3)\<close>, with the centroids \<open>(4, 8/3, 0)\<close> and \<open>(2, 16/3, 0)\<close>.  Their
  average is \<open>(3, 4, 0)\<close>; the face centre of vertex 0 is the second centroid.
\<close>

theorem faceCenter_average_counterexample:
  "startup junk0 1 ex_world = Inr ex_app \<and>
   triples (indices (app_mesh ex_app)) = [(0, 1, 2), (0, 2, 3)] \<and>
   centroid (mvertices (app_mesh ex_app)) (0, 1, 2) = (4, 8 / 3, 0) \<and>
   centroid (mvertices (app_mesh ex_app)) (0, 2, 3) = (2, 16 / 3, 0) \<and>
   sdiv (vadd (4, 8 / 3, 0) (2, 16 / 3, 0)) 2 = (3, 4, 0) \<and>
   faceCenter (mvertices (app_mesh ex_app) ! 0) = (2, 16 / 3, 0)"
proof -
  from ex_loaded_mesh obtain mesh1 where
    all: "map position (mvertices mesh1) = [(0, 0, 0), (6, 0, 0), (6, 8, 0), (0, 8, 0), (3, 4, 0)] \<and>
     indices mesh1 = [0, 1, 2, 0, 2, 3] \<and>
     mvertices (app_mesh ex_app) = mvertices (calculateFaceCenters mesh1) \<and>
     indices (app_mesh ex_app) = [0, 1, 2, 0, 2, 3]" ..
  note pos = all [THEN conjunct1]
    and idx = all [THEN conjunct2, THEN conjunct1]
    and mv = all [THEN conjunct2, THEN conjunct2, THEN conjunct1]
    and ai = all [THEN conjunct2, THEN conjunct2, THEN conjunct2]
  have len: "length (mvertices mesh1) = 5" using arg_cong [OF pos, of length] by simp
  have h1: "3 dvd length (indices mesh1)"
  proof -
    have "length (indices mesh1) = 3 * 2" by (simp add: idx)
    then show ?thesis by (simp only: dvd_triv_left)
  qed
  have h2: "\<forall>j \<in> set (indices mesh1). j < length (mvertices mesh1)" by (simp add: idx len)
  have k0: "0 < length (mvertices mesh1)" by (simp add: len)
  have l0: "last_face 0 (triples (indices mesh1)) = Some (0, 2, 3)"
    by (simp add: idx last_face_def)
  have c2: "centroid (mvertices mesh1) (0, 2, 3) = (2, 16 / 3, 0)"
    by (simp add: centroid_positions [OF pos])
  have "faceCenter (mvertices (calculateFaceCenters mesh1) ! 0) = centroid (mvertices mesh1) (0, 2, 3)"
    using faceCenter_is_last_incident_centroid_aux [OF h1 h2 k0, THEN conjunct2]
    by (simp only: l0 option.case)
  then have fc: "faceCenter (mvertices (app_mesh ex_app) ! 0) = (2, 16 / 3, 0)"
    by (simp only: c2 mv)
  have pos': "map position (mvertices (app_mesh ex_app)) =
      [(0, 0, 0), (6, 0, 0), (6, 8, 0), (0, 8, 0), (3, 4, 0)]"
    unfolding mv by (simp add: pos)
  have c1': "centroid (mvertices (app_mesh ex_app)) (0, 1, 2) = (4, 8 / 3, 0)"
    by (simp add: centroid_positions [OF pos'])
  have c2': "centroid (mvertices (app_mesh ex_app)) (0, 2, 3) = (2, 16 / 3, 0)"
    by (simp add: centroid_positions [OF pos'])
  have t: "triples (indices (app_mesh ex_app)) = [(0, 1, 2), (0, 2, 3)]"
    by (simp add: ai)
  have avg: "sdiv (vadd (4, 8 / 3, 0) (2, 16 / 3, 0)) 2 = (3, 4, 0)" by simp
  from ex_startup t c1' c2' avg fc show ?thesis by blast
qed

section \<open>Properties of the vertex shader\<close>

lemma explodedPos_zero: "explodedPos aPos aFaceCenter 0 = aPos"
  by (cases aPos; cases aFaceCenter) (simp add: explodedPos_def)

lemma explodedPos_moves:
  assumes "factor \<noteq> 0" and "aPos \<noteq> aFaceCenter"
  shows "explodedPos aPos aFaceCenter factor \<noteq> aPos"
  using assms by (cases aPos; cases aFaceCenter) (auto simp: explodedPos_def)

lemma mat_vec_add: "mat_vec m (vadd4 p q) = vadd4 (mat_vec m p) (mat_vec m q)"
proof -
  obtain c0 c1 c2 c3 where m: "m = (c0, c1, c2, c3)" by (cases m) auto
  show ?thesis
    unfolding m
    by (cases c0; cases c1; cases c2; cases c3; cases p; cases q) (simp add: algebra_simps)
qed

lemma vec4_of_add: "vec4_of (vadd p q) 1 = vadd4 (vec4_of p 1) (vec4_of q 0)"
  by (cases p; cases q) simp

lemma vec3_of_add: "vec3_of (vadd4 p q) = vadd (vec3_of p) (vec3_of q)"
  by (cases p; cases q) simp

lemma FragPos_displaced:
  "FragPos (vertex_shader normalMatrix model view projection factor u) =
     vadd (FragPos (vertex_shader normalMatrix model view projection 0 u))
       (vec3_of (mat_vec model (vec4_of (smul (vsub (position u) (faceCenter u)) factor) 0)))"
  by (simp add: vertex_shader_def Let_def explodedPos_zero)
     (simp add: explodedPos_def vec4_of_add mat_vec_add vec3_of_add)

lemma gl_Position_displaced:
  "gl_Position (vertex_shader normalMatrix model view projection factor u) =
     vadd4 (gl_Position (vertex_shader normalMatrix model view projection 0 u))
       (mat_vec projection (mat_vec view (vec4_of (vec3_of (mat_vec model
          (vec4_of (smul (vsub (position u) (faceCenter u)) factor) 0))) 0)))"
  by (simp add: vertex_shader_def Let_def explodedPos_zero)
     (simp add: explodedPos_def vec4_of_add mat_vec_add vec3_of_add)

text \<open>
  Claim C10.  The vertex shader computes every position it puts out from
  \<open>explodedPos = aPos + (aPos - aFaceCenter) * explodeFactor\<close>: \<open>FragPos\<close> is the model matrix
  applied to it, \<open>gl_Position\<close> the projection and view matrices applied to \<open>FragPos\<close>, and
  \<open>Depth\<close> the negated view-space \<open>z\<close> of \<open>FragPos\<close>; \<open>Normal\<close> does not depend on the factor.
  With the factor 0 they are computed from the buffered position \<open>aPos\<close>.  With another
  factor \<open>FragPos\<close> and \<open>gl_Position\<close> are those of the factor 0 plus the image, under the same
  matrices, of the direction \<open>(aPos - aFaceCenter) * explodeFactor\<close>, and a vertex off its face
  centre is moved in model space.  \<open>Draw\<close> runs the shader on the uploaded buffers with the
  global \<open>explodeFactor\<close> as the uniform, whatever the world of the explosion state machine
  holds.
\<close>

theorem vertex_shader_explodes_per_face:
  "FragPos (vertex_shader normalMatrix model view projection factor u) =
     vec3_of (mat_vec model
       (vec4_of (vadd (position u) (smul (vsub (position u) (faceCenter u)) factor)) 1)) \<and>
   FragPos (vertex_shader normalMatrix model view projection 0 u) =
     vec3_of (mat_vec model (vec4_of (position u) 1)) \<and>
   explodedPos aPos aFaceCenter factor = vadd aPos (smul (vsub aPos aFaceCenter) factor) \<and>
   explodedPos aPos aFaceCenter 0 = aPos \<and>
   (factor \<noteq> 0 \<and> aPos \<noteq> aFaceCenter \<longrightarrow> explodedPos aPos aFaceCenter factor \<noteq> aPos) \<and>
   Draw normalMatrix model view projection app =
     map (\<lambda>k. vertex_shader normalMatrix model view projection (explodeFactor app)
                (vertex_buffer (app_gl app) ! k))
         (element_buffer (app_gl app)) \<and>
   Draw normalMatrix model view projection (app\<lparr>world := w\<rparr>) =
     Draw normalMatrix model view projection app \<and>
   gl_Position (vertex_shader normalMatrix model view projection factor u) =
     mat_vec projection (mat_vec view (vec4_of (vec3_of (mat_vec model
       (vec4_of (vadd (position u) (smul (vsub (position u) (faceCenter u)) factor)) 1))) 1)) \<and>
   gl_Position (vertex_shader normalMatrix model view projection 0 u) =
     mat_vec projection (mat_vec view (vec4_of (vec3_of (mat_vec model
       (vec4_of (position u) 1))) 1)) \<and>
   gl_Position (vertex_shader normalMatrix model view projection factor u) =
     vadd4 (gl_Position (vertex_shader normalMatrix model view projection 0 u))
       (mat_vec projection (mat_vec view (vec4_of (vec3_of (mat_vec model
          (vec4_of (smul (vsub (position u) (faceCenter u)) factor) 0))) 0))) \<and>
   FragPos (vertex_shader normalMatrix model view projection factor u) =
     vadd (FragPos (vertex_shader normalMatrix model view projection 0 u))
       (vec3_of (mat_vec model (vec4_of (smul (vsub (position u) (faceCenter u)) factor) 0))) \<and>
   Depth (vertex_shader normalMatrix model view projection factor u) =
     - (case mat_vec view
          (vec4_of (FragPos (vertex_shader normalMatrix model view projection factor u)) 1)
        of (a, b, c, d) \<Rightarrow> c) \<and>
   Normal (vertex_shader normalMatrix model view projection factor u) =
     normalMatrix model (normal u)"
proof -
  have old: "FragPos (vertex_shader normalMatrix model view projection factor u) =
     vec3_of (mat_vec model
       (vec4_of (vadd (position u) (smul (vsub (position u) (faceCenter u)) factor)) 1)) \<and>
   FragPos (vertex_shader normalMatrix model view projection 0 u) =
     vec3_of (mat_vec model (vec4_of (position u) 1)) \<and>
   explodedPos aPos aFaceCenter factor = vadd aPos (smul (vsub aPos aFaceCenter) factor) \<and>
   explodedPos aPos aFaceCenter 0 = aPos \<and>
   (factor \<noteq> 0 \<and> aPos \<noteq> aFaceCenter \<longrightarrow> explodedPos aPos aFaceCenter factor \<noteq> aPos) \<and>
   Draw normalMatrix model view projection app =
     map (\<lambda>k. vertex_shader normalMatrix model view projection (explodeFactor app)
                (vertex_buffer (app_gl app) ! k))
         (element_buffer (app_gl app)) \<and>
   Draw normalMatrix model view projection (app\<lparr>world := w\<rparr>) =
     Draw normalMatrix model view projection app"
    using explodedPos_moves [of factor aPos aFaceCenter]
    by (simp add: vertex_shader_def Let_def explodedPos_zero Draw_def)
       (simp add: explodedPos_def)
  have g: "gl_Position (vertex_shader normalMatrix model view projection factor u) =
     mat_vec projection (mat_vec view (vec4_of (vec3_of (mat_vec model
       (vec4_of (vadd (position u) (smul (vsub (position u) (faceCenter u)) factor)) 1))) 1))"
    by (simp add: vertex_shader_def Let_def explodedPos_def)
  have g0: "gl_Position (vertex_shader normalMatrix model view projection 0 u) =
     mat_vec projection (mat_vec view (vec4_of (vec3_of (mat_vec model
       (vec4_of (position u) 1))) 1))"
    by (simp add: vertex_shader_def Let_def explodedPos_zero)
  have d: "Depth (vertex_shader normalMatrix model view projection factor u) =
     - (case mat_vec view
          (vec4_of (FragPos (vertex_shader normalMatrix model view projection factor u)) 1)
        of (a, b, c, d) \<Rightarrow> c)"
    by (simp add: vertex_shader_def Let_def)
  have n: "Normal (vertex_shader normalMatrix model view projection factor u) =
     normalMatrix model (normal u)"
    by (simp add: vertex_shader_def Let_def)
  from old g g0 gl_Position_displaced [of normalMatrix model view projection factor u]
    FragPos_displaced [of normalMatrix model view projection factor u] d n
  show ?thesis by blast
qed

theorem vertex_shader_explodes_per_face_witness:
  "explodedPos (1, 0, 0) (0, 0, 0) (1 / 2) = (3 / 2, 0, 0) \<and>
   explodedPos (1, 0, 0) (0, 0, 0) (1 / 2) \<noteq> (1, 0, 0) \<and>
   FragPos (vertex_shader ex_normalMatrix ex_matrix ex_matrix ex_matrix (1 / 2)
     \<lparr>position = (1, 0, 0), normal = (0, 0, 1), faceCenter = (0, 0, 0)\<rparr>) = (4, 0, 0) \<and>
   FragPos (vertex_shader ex_normalMatrix ex_matrix ex_matrix ex_matrix 0
     \<lparr>position = (1, 0, 0), normal = (0, 0, 1), faceCenter = (0, 0, 0)\<rparr>) = (3, 0, 0) \<and>
   gl_Position (vertex_shader ex_normalMatrix ex_matrix ex_matrix ex_matrix (1 / 2)
     \<lparr>position = (1, 0, 0), normal = (0, 0, 1), faceCenter = (0, 0, 0)\<rparr>) = (19, 0, 0, 1) \<and>
   gl_Position (vertex_shader ex_normalMatrix ex_matrix ex_matrix ex_matrix 0
     \<lparr>position = (1, 0, 0), normal = (0, 0, 1), faceCenter = (0, 0, 0)\<rparr>) = (15, 0, 0, 1) \<and>
   Depth (vertex_shader ex_normalMatrix ex_matrix ex_matrix ex_matrix (1 / 2)
     \<lparr>position = (0, 0, 1), normal = (0, 0, 1), faceCenter = (0, 0, 0)\<rparr>) = - 6"
proof -
  note T = vertex_shader_explodes_per_face [where normalMatrix = ex_normalMatrix
      and model = ex_matrix and view = ex_matrix and projection = ex_matrix
      and factor = "1 / 2" and aPos = "(1, 0, 0)" and aFaceCenter = "(0, 0, 0)"
      and u = "\<lparr>position = (1, 0, 0), normal = (0, 0, 1), faceCenter = (0, 0, 0)\<rparr>"]
  note U = vertex_shader_explodes_per_face [where normalMatrix = ex_normalMatrix
      and model = ex_matrix and view = ex_matrix and projection = ex_matrix
      and factor = "1 / 2" and aPos = "(1, 0, 0)" and aFaceCenter = "(0, 0, 0)"
      and u = "\<lparr>position = (0, 0, 1), normal = (0, 0, 1), faceCenter = (0, 0, 0)\<rparr>"]
  have n: "(1 / 2 :: real) \<noteq> 0 \<and> ((1, 0, 0) :: vec3) \<noteq> (0, 0, 0)" by simp
  from T U n show ?thesis
    by (simp add: ex_matrix_def)
qed

end
